theory Spec2Isabelle
  imports Complex_Main "HOL-Library.Word"
begin

chapter \<open>A shallow embedding of the one-api relay gateway\<close>

text \<open>
  The development follows the Go sources: the channel accessors of package \<open>model\<close>,
  the text relay of package \<open>controller\<close> (request URL, model mapping, quota
  preconsumption and settlement, the racing dispatcher \<open>asyncHTTPDo\<close>), the leader
  election of package \<open>election\<close> and the pub/sub listener of package \<open>realtime\<close>.
  Go strings are byte strings (\<open>string\<close>), Go \<open>int\<close> is \<open>int\<close>, \<open>int64\<close> fields that are only
  stored and read are 64-bit words, a nullable pointer is an \<open>option\<close>, and \<open>float64\<close>
  pricing ratios are exact rationals.
\<close>

section \<open>Definitions\<close>

subsection \<open>Package strings\<close>

definition HasPrefix :: "string \<Rightarrow> string \<Rightarrow> bool" where
  "HasPrefix s pre = (take (length pre) s = pre)"

definition HasSuffix :: "string \<Rightarrow> string \<Rightarrow> bool" where
  "HasSuffix s suf = (length suf \<le> length s \<and> drop (length s - length suf) s = suf)"

definition TrimPrefix :: "string \<Rightarrow> string \<Rightarrow> string" where
  "TrimPrefix s pre = (if HasPrefix s pre then drop (length pre) s else s)"

definition TrimSuffix :: "string \<Rightarrow> string \<Rightarrow> string" where
  "TrimSuffix s suf = (if HasSuffix s suf then take (length s - length suf) s else s)"

text \<open>\<open>strings.Index\<close>: the position of the first occurrence of \<open>sub\<close>, or \<open>-1\<close>.\<close>

fun Index :: "string \<Rightarrow> string \<Rightarrow> int" where
  "Index [] sub = (if sub = [] then 0 else - 1)"
| "Index (x # xs) sub =
     (if HasPrefix (x # xs) sub then 0
      else (let i = Index xs sub in if i < 0 then - 1 else i + 1))"

text \<open>
  \<open>strings.Replace(s, old, new, -1)\<close> for a non-empty \<open>old\<close>: every non-overlapping
  occurrence, from the left. The counter is the number of bytes of the current match
  that are still to be skipped.
\<close>

fun Replace_from :: "nat \<Rightarrow> string \<Rightarrow> string \<Rightarrow> string \<Rightarrow> string" where
  "Replace_from k [] old new = []"
| "Replace_from (Suc k) (x # xs) old new = Replace_from k xs old new"
| "Replace_from 0 (x # xs) old new =
     (if HasPrefix (x # xs) old then new @ Replace_from (length old - 1) xs old new
      else x # Replace_from 0 xs old new)"

definition Replace :: "string \<Rightarrow> string \<Rightarrow> string \<Rightarrow> string" where
  "Replace s old new = Replace_from 0 s old new"

text \<open>\<open>strings.Split(s, sep)[0]\<close>: the part of \<open>s\<close> before the first \<open>sep\<close>, all of \<open>s\<close> without one.\<close>

definition Split_first :: "string \<Rightarrow> string \<Rightarrow> string" where
  "Split_first s sep = (let i = Index s sep in if i < 0 then s else take (nat i) s)"

subsection \<open>Package model: the channel and its accessors\<close>

datatype go_panic = NilPointerDereference | MakesliceLenOutOfRange

text \<open>Reading through a pointer: a nil pointer panics.\<close>

definition deref :: "'a option \<Rightarrow> go_panic + 'a" where
  "deref p = (case p of None \<Rightarrow> Inl NilPointerDereference | Some v \<Rightarrow> Inr v)"

text \<open>
  The struct \<open>Channel\<close>. The pointer fields (\<open>Weight\<close>, \<open>BaseURL\<close>, \<open>ModelMapping\<close>,
  \<open>Priority\<close>, \<open>AutoBan\<close>) are options; \<open>Id\<close>, \<open>Type\<close> and \<open>Group\<close> carry a suffix, and the
  \<open>float64\<close> field \<open>Balance\<close>, which no accessor reads, is left out.
\<close>

record Channel =
  Id_ :: int
  Type_ :: int
  Key :: string
  Status :: int
  Name :: string
  Weight :: "nat option"
  CreatedTime :: "64 word"
  TestTime :: "64 word"
  ResponseTime :: int
  FullURL :: string
  BaseURL :: "string option"
  Other :: string
  BalanceUpdatedTime :: "64 word"
  Models :: string
  Group_ :: string
  UsedQuota :: "64 word"
  AsyncNum :: int
  ModelMapping :: "string option"
  Priority :: "64 word option"
  AutoBan :: "int option"

definition GetPriority :: "Channel \<Rightarrow> go_panic + 64 word" where
  "GetPriority channel =
     (if Priority channel = None then Inr 0 else deref (Priority channel))"

definition GetBaseURL :: "Channel \<Rightarrow> go_panic + string" where
  "GetBaseURL channel =
     (if BaseURL channel = None then Inr [] else deref (BaseURL channel))"

definition GetModelMapping :: "Channel \<Rightarrow> go_panic + string" where
  "GetModelMapping channel =
     (if ModelMapping channel = None then Inr [] else deref (ModelMapping channel))"

text \<open>A channel as the database returns it when every nullable column is NULL.\<close>

definition nil_channel :: Channel where
  "nil_channel =
     \<lparr>Id_ = 1, Type_ = 1, Key = ''sk-abc'', Status = 1, Name = ''c1'', Weight = None,
      CreatedTime = 0, TestTime = 0, ResponseTime = 0, FullURL = [], BaseURL = None,
      Other = [], BalanceUpdatedTime = 0, Models = ''gpt-4'', Group_ = ''default'',
      UsedQuota = 0, AsyncNum = 1, ModelMapping = None, Priority = None, AutoBan = None\<rparr>"

subsection \<open>Package common: what the relay reads from it\<close>

text \<open>
  The constants, tables and ratio functions of package \<open>common\<close> are declared outside
  the files at hand; the relay takes them as a parameter.
\<close>

record common =
  ChannelTypeOpenAI :: int
  ChannelTypeAzure :: int
  ChannelTypeAnthropic :: int
  ChannelTypeBaidu :: int
  ChannelTypePaLM :: int
  ChannelTypeZhipu :: int
  ChannelTypeAli :: int
  ChannelTypeXunfei :: int
  ChannelTypeAIProxyLibrary :: int
  ChannelTypeTencent :: int
  ChannelTypeOpenAIWeb :: int
  ChannelBaseURLs :: "int \<Rightarrow> string"
  PreConsumedQuota :: int
  BatchUpdateEnabled :: bool
  GetModelRatio :: "string \<Rightarrow> rat"
  GetGroupRatio :: "string \<Rightarrow> rat"
  GetCompletionRatio :: "string \<Rightarrow> rat"

subsection \<open>Package controller: the text relay\<close>

datatype api_type =
  APITypeOpenAI | APITypeClaude | APITypePaLM | APITypeBaidu | APITypeZhipu | APITypeAli
  | APITypeXunfei | APITypeAIProxyLibrary | APITypeTencent | APITypeOpenAIWeb


text \<open>The fields of \<open>GeneralOpenAIRequest\<close> that \<open>relayTextHelper\<close> reads.\<close>

record GeneralOpenAIRequest =
  Model :: string
  Messages :: "(string \<times> string) list"
  Prompt :: string
  Stream :: bool
  MaxTokens :: int
  Input :: string
  Instruction :: string

record Usage =
  PromptTokens :: int
  CompletionTokens :: int
  TotalTokens :: int

text \<open>
  What \<open>relayTextHelper\<close> reads from the gin context: the hints set by the
  authentication layer (\<open>c.GetInt\<close>, \<open>c.GetString\<close>), the path parameter \<open>model\<close>, the
  request URL and the inbound body.
\<close>

record relay_context =
  ctx_channel :: int
  ctx_channel_id :: int
  ctx_token_id :: int
  ctx_id :: int
  ctx_group :: string
  ctx_token_name :: string
  ctx_model_mapping :: string
  ctx_base_url :: string
  ctx_full_url :: string
  ctx_async_num :: int
  ctx_param_model :: string
  ctx_request_URL :: string
  ctx_request_body :: string

text \<open>
  Functions the relay calls that are declared outside the files at hand (the JSON
  codec, the token counters, \<open>getFullRequestURL\<close>, \<open>GetAPIVersion\<close>, and the
  \<open>%.2f\<close> verb of \<open>fmt.Sprintf\<close>), as a parameter. \<open>Unmarshal_map\<close> and
  \<open>Marshal_request\<close> return \<open>None\<close> for an error.
\<close>

record relay_deps =
  UnmarshalBodyReusable :: "string \<Rightarrow> GeneralOpenAIRequest option"
  Unmarshal_map :: "string \<Rightarrow> (string \<rightharpoonup> string) option"
  Marshal_request :: "GeneralOpenAIRequest \<Rightarrow> string option"
  countTokenMessages :: "(string \<times> string) list \<Rightarrow> string \<Rightarrow> int"
  countTokenInput :: "string \<Rightarrow> string \<Rightarrow> int"
  countTokenText :: "string \<Rightarrow> string \<Rightarrow> int"
  getFullRequestURL :: "string \<Rightarrow> string \<Rightarrow> int \<Rightarrow> string"
  GetAPIVersion :: "relay_context \<Rightarrow> string"
  Sprintf_2f :: "rat \<Rightarrow> string"






text \<open>Lines 124 to 144: the API type of a channel type (a Go \<open>switch\<close>, first match).\<close>

definition api_type_of :: "common \<Rightarrow> int \<Rightarrow> api_type" where
  "api_type_of cm channelType =
     (if channelType = ChannelTypeAnthropic cm then APITypeClaude
      else if channelType = ChannelTypeBaidu cm then APITypeBaidu
      else if channelType = ChannelTypePaLM cm then APITypePaLM
      else if channelType = ChannelTypeZhipu cm then APITypeZhipu
      else if channelType = ChannelTypeAli cm then APITypeAli
      else if channelType = ChannelTypeXunfei cm then APITypeXunfei
      else if channelType = ChannelTypeAIProxyLibrary cm then APITypeAIProxyLibrary
      else if channelType = ChannelTypeTencent cm then APITypeTencent
      else if channelType = ChannelTypeOpenAIWeb cm then APITypeOpenAIWeb
      else APITypeOpenAI)"

text \<open>Lines 168 to 173: the deployment name of an Azure channel.\<close>

definition azure_model_name :: "string \<Rightarrow> string" where
  "azure_model_name model =
     (let model1 = Replace model ''.'' '''';
          model2 = TrimSuffix model1 ''-0301'';
          model3 = TrimSuffix model2 ''-0314'';
          model4 = TrimSuffix model3 ''-0613''
      in model4)"

text \<open>Lines 163 to 175: the request path of an Azure channel.\<close>

definition azure_request_URL :: "string \<Rightarrow> string \<Rightarrow> string \<Rightarrow> string" where
  "azure_request_URL requestURL0 apiVersion model =
     (let requestURL = Split_first requestURL0 ''?'';
          requestURL = requestURL @ ''?api-version='' @ apiVersion;
          task = TrimPrefix requestURL ''/v1/'';
          model4 = azure_model_name model
      in ''/openai/deployments/'' @ model4 @ ''/'' @ task)"

text \<open>
  Lines 145 to 177 for the API type \<open>APITypeOpenAI\<close>: the full request URL. The Azure
  branch overwrites whatever the lines before it chose.
\<close>

definition openai_full_request_URL ::
  "common \<Rightarrow> relay_deps \<Rightarrow> relay_context \<Rightarrow> GeneralOpenAIRequest \<Rightarrow> string" where
  "openai_full_request_URL cm deps c textRequest =
     (let channelType = ctx_channel c;
          baseURL0 = ChannelBaseURLs cm channelType;
          requestURL = ctx_request_URL c;
          baseURL = (if ctx_base_url c \<noteq> [] then ctx_base_url c else baseURL0);
          fullRequestURL0 = getFullRequestURL deps baseURL requestURL channelType;
          fullRequestURL1 =
            (if channelType = ChannelTypeOpenAI cm
                \<and> HasPrefix baseURL ''https://gateway.ai.cloudflare.com''
             then baseURL @ TrimPrefix requestURL ''/v1'' else fullRequestURL0);
          fullRequestURL2 =
            (if ctx_full_url c \<noteq> [] \<and> HasSuffix requestURL ''chat/completions''
             then ctx_full_url c else fullRequestURL1)
      in if channelType = ChannelTypeAzure cm
         then getFullRequestURL deps (ctx_base_url c)
                (azure_request_URL requestURL (GetAPIVersion deps c) (Model textRequest))
                channelType
         else fullRequestURL2)"

subsection \<open>Package model: the quota ledger\<close>

text \<open>
  The record that \<open>RecordConsumeLog\<close> is called with: user, channel, prompt and
  completion tokens, model name, token name, quota, content, token and user quota.
\<close>

record consume_log =
  log_userId :: int
  log_channelId :: int
  log_promptTokens :: int
  log_completionTokens :: int
  log_modelName :: string
  log_tokenName :: string
  log_quota :: int
  log_content :: string
  log_tokenId :: int
  log_userQuota :: int

text \<open>The ledger calls of \<open>relayTextHelper\<close>, with their arguments, as they are made.\<close>

datatype ledger_call =
  Call_CacheGetUserQuota int
  | Call_CacheDecreaseUserQuota int int
  | Call_PreConsumeTokenQuota int int
  | Call_PostConsumeTokenQuota int int int int bool
  | Call_CacheUpdateUserQuota int
  | Call_RecordConsumeLog consume_log
  | Call_UpdateUserUsedQuotaAndRequestCount int int
  | Call_UpdateChannelUsedQuota int int

datatype ledger_op =
  Op_CacheGetUserQuota | Op_CacheDecreaseUserQuota | Op_PreConsumeTokenQuota
  | Op_PostConsumeTokenQuota | Op_CacheUpdateUserQuota | Op_updateChannelUsedQuota

text \<open>
  The state behind the ledger: per user the persisted quota, its cached view, the
  used-quota counter and the request count; per token the remaining quota; per channel
  the used-quota counter and the records queued for the batch updater; the consume log;
  the calls made so far; and the operations whose backing store is out of reach (such a
  call returns an error and changes nothing).
\<close>

record ledger =
  user_quota :: "int \<Rightarrow> int"
  user_quota_cache :: "int \<Rightarrow> int"
  user_used_quota :: "int \<Rightarrow> int"
  user_request_count :: "int \<Rightarrow> int"
  token_remain_quota :: "int \<Rightarrow> int"
  channel_used_quota :: "int \<Rightarrow> int"
  batch_channel_used_quota :: "(int \<times> int) list"
  consume_logs :: "consume_log list"
  calls :: "ledger_call list"
  out_of_reach :: "ledger_op set"

definition called :: "ledger_call \<Rightarrow> ledger \<Rightarrow> ledger" where
  "called k l = l\<lparr>calls := calls l @ [k]\<rparr>"




text \<open>
  Modelled from the spec: \<open>model.PostConsumeTokenQuota\<close> is not in the files at hand.
  The spec's \<open>settle(token_id, observed_user_quota, delta, preconsumed,
  return_on_error)\<close>: "the ledger then applies delta; a negative delta refunds".
\<close>

definition PostConsumeTokenQuota ::
  "int \<Rightarrow> int \<Rightarrow> int \<Rightarrow> int \<Rightarrow> bool \<Rightarrow> ledger \<Rightarrow> bool \<times> ledger" where
  "PostConsumeTokenQuota tokenId userQuota quota preConsumedQuota sendEmail l =
     (let l1 = called (Call_PostConsumeTokenQuota tokenId userQuota quota preConsumedQuota sendEmail) l in
      if Op_PostConsumeTokenQuota \<in> out_of_reach l then (False, l1)
      else (True, l1\<lparr>token_remain_quota :=
                        (token_remain_quota l1)(tokenId := token_remain_quota l1 tokenId - quota)\<rparr>))"

text \<open>
  Modelled from the spec: \<open>model.CacheUpdateUserQuota\<close> is not in the files at hand.
  The spec's \<open>refresh_user_quota_cache(user_id)\<close>: the cached view is read again from the
  persisted quota.
\<close>

definition CacheUpdateUserQuota :: "int \<Rightarrow> ledger \<Rightarrow> bool \<times> ledger" where
  "CacheUpdateUserQuota uid l =
     (let l1 = called (Call_CacheUpdateUserQuota uid) l in
      if Op_CacheUpdateUserQuota \<in> out_of_reach l then (False, l1)
      else (True, l1\<lparr>user_quota_cache := (user_quota_cache l1)(uid := user_quota l1 uid)\<rparr>))"

text \<open>
  Modelled from the spec: \<open>model.RecordConsumeLog\<close> is not in the files at hand. It
  "writes a consume-log record".
\<close>

definition RecordConsumeLog :: "consume_log \<Rightarrow> ledger \<Rightarrow> ledger" where
  "RecordConsumeLog r l =
     (let l1 = called (Call_RecordConsumeLog r) l in l1\<lparr>consume_logs := consume_logs l1 @ [r]\<rparr>)"

text \<open>
  Modelled from the spec: \<open>model.UpdateUserUsedQuotaAndRequestCount\<close> is not in the
  files at hand. It updates the "per-user used-quota" (and, by its name, counts the
  request).
\<close>

definition UpdateUserUsedQuotaAndRequestCount :: "int \<Rightarrow> int \<Rightarrow> ledger \<Rightarrow> ledger" where
  "UpdateUserUsedQuotaAndRequestCount uid quota l =
     (let l1 = called (Call_UpdateUserUsedQuotaAndRequestCount uid quota) l in
      l1\<lparr>user_used_quota := (user_used_quota l1)(uid := user_used_quota l1 uid + quota),
         user_request_count := (user_request_count l1)(uid := user_request_count l1 uid + 1)\<rparr>)"

text \<open>
  Modelled from the spec: \<open>addNewRecord\<close> is not in the files at hand. With
  \<open>BatchUpdateEnabled\<close> the channel-used-quota updates are coalesced: the record is
  queued for the batch updater.
\<close>

definition addNewRecord_ChannelUsedQuota :: "int \<Rightarrow> int \<Rightarrow> ledger \<Rightarrow> ledger" where
  "addNewRecord_ChannelUsedQuota cid quota l =
     l\<lparr>batch_channel_used_quota := batch_channel_used_quota l @ [(cid, quota)]\<rparr>"

text \<open>\<open>updateChannelUsedQuota\<close>: \<open>used_quota = used_quota + quota\<close>; an error is logged.\<close>

definition updateChannelUsedQuota :: "int \<Rightarrow> int \<Rightarrow> ledger \<Rightarrow> ledger" where
  "updateChannelUsedQuota cid quota l =
     (if Op_updateChannelUsedQuota \<in> out_of_reach l then l
      else l\<lparr>channel_used_quota := (channel_used_quota l)(cid := channel_used_quota l cid + quota)\<rparr>)"

definition UpdateChannelUsedQuota :: "common \<Rightarrow> int \<Rightarrow> int \<Rightarrow> ledger \<Rightarrow> ledger" where
  "UpdateChannelUsedQuota cm cid quota l =
     (let l1 = called (Call_UpdateChannelUsedQuota cid quota) l in
      if BatchUpdateEnabled cm then addNewRecord_ChannelUsedQuota cid quota l1
      else updateChannelUsedQuota cid quota l1)"

subsection \<open>Package controller: preconsumption\<close>


text \<open>
  The local variables of \<open>relayTextHelper\<close> that the settlement closure captures:
  \<open>promptTokens\<close>, \<open>modelRatio\<close>, \<open>groupRatio\<close>, \<open>ratio\<close>, \<open>preConsumedQuota\<close> (after the
  trust check; \<open>estimatedQuota\<close> is its value before) and \<open>userQuota\<close>.
\<close>

record billing =
  promptTokens :: int
  modelRatio :: rat
  groupRatio :: rat
  ratio :: rat
  estimatedQuota :: int
  preConsumedQuota :: int
  userQuota :: int



subsection \<open>Package controller: settlement\<close>

text \<open>Lines 466 to 479: the quota of a call from its usage.\<close>

definition settle_quota :: "rat \<Rightarrow> rat \<Rightarrow> int \<Rightarrow> int \<Rightarrow> int" where
  "settle_quota completionRatio rat0 pTokens cTokens =
     (let quota0 = \<lceil>(of_int pTokens + of_int cTokens * completionRatio) * rat0\<rceil>;
          quota1 = (if rat0 \<noteq> 0 \<and> quota0 \<le> 0 then 1 else quota0);
          totalTokens = pTokens + cTokens
      in if totalTokens = 0 then 0 else quota1)"

text \<open>
  Line 467 to 479 on the captured variables: the completion ratio is read for the model
  name the request carries when the closure runs.
\<close>

definition settled_quota :: "common \<Rightarrow> GeneralOpenAIRequest \<Rightarrow> billing \<Rightarrow> Usage \<Rightarrow> int" where
  "settled_quota cm textRequest b u =
     settle_quota (GetCompletionRatio cm (Model textRequest)) (ratio b)
       (PromptTokens u) (CompletionTokens u)"

text \<open>
  The format string of line 490 in UTF-8, around its two \<open>%.2f\<close> verbs: the words for
  "model ratio" and "group ratio".
\<close>

definition logContent_text :: "relay_deps \<Rightarrow> rat \<Rightarrow> rat \<Rightarrow> string" where
  "logContent_text deps mRatio gRatio =
     [CHR 0xE6, CHR 0xA8, CHR 0xA1, CHR 0xE5, CHR 0x9E, CHR 0x8B, CHR 0xE5, CHR 0x80,
      CHR 0x8D, CHR 0xE7, CHR 0x8E, CHR 0x87, CHR 0x20]
     @ Sprintf_2f deps mRatio
     @ [CHR 0xEF, CHR 0xBC, CHR 0x8C, CHR 0xE5, CHR 0x88, CHR 0x86, CHR 0xE7, CHR 0xBB,
        CHR 0x84, CHR 0xE5, CHR 0x80, CHR 0x8D, CHR 0xE7, CHR 0x8E, CHR 0x87, CHR 0x20]
     @ Sprintf_2f deps gRatio"

text \<open>
  Lines 463 to 497: the deferred settlement, run when \<open>relayTextHelper\<close> returns after
  line 463, on the usage the response handler left in \<open>textResponse\<close>. The errors of
  \<open>PostConsumeTokenQuota\<close> and \<open>CacheUpdateUserQuota\<close> are logged and the closure goes on.
\<close>

definition post_consume ::
  "common \<Rightarrow> relay_deps \<Rightarrow> relay_context \<Rightarrow> GeneralOpenAIRequest \<Rightarrow> billing \<Rightarrow> Usage
     \<Rightarrow> ledger \<Rightarrow> ledger" where
  "post_consume cm deps c textRequest b u l =
     (let pTokens = PromptTokens u;
          cTokens = CompletionTokens u;
          quota = settled_quota cm textRequest b u;
          quotaDelta = quota - preConsumedQuota b;
          l1 = snd (PostConsumeTokenQuota (ctx_token_id c) (userQuota b) quotaDelta
                      (preConsumedQuota b) True l);
          l2 = snd (CacheUpdateUserQuota (ctx_id c) l1)
      in if quota \<noteq> 0 then
           (let logContent = logContent_text deps (modelRatio b) (groupRatio b);
                l3 = RecordConsumeLog
                       \<lparr>log_userId = ctx_id c, log_channelId = ctx_channel_id c,
                        log_promptTokens = pTokens, log_completionTokens = cTokens,
                        log_modelName = Model textRequest, log_tokenName = ctx_token_name c,
                        log_quota = quota, log_content = logContent,
                        log_tokenId = ctx_token_id c, log_userQuota = userQuota b\<rparr> l2;
                l4 = UpdateUserUsedQuotaAndRequestCount (ctx_id c) quota l3
            in UpdateChannelUsedQuota cm (ctx_channel_id c) quota l4)
         else l2)"

subsection \<open>Package controller: the relay of one call\<close>

text \<open>
  What the upstream answers, as far as the relay reads it: the status code, whether the
  \<open>Content-Type\<close> starts with \<open>text/event-stream\<close>, and what the response handlers make of
  the body: \<open>openaiStreamHandler\<close> an error (\<open>None\<close>) or the response text,
  \<open>openaiHandler\<close> an error (\<open>None\<close>) or a usage pointer, which may be nil.
\<close>

record upstream_response =
  StatusCode :: int
  is_event_stream :: bool
  openaiStreamHandler :: "string option"
  openaiHandler :: "Usage option option"

datatype do_result = Do_failed | Do_response upstream_response


definition zero_usage :: Usage where
  "zero_usage = \<lparr>PromptTokens = 0, CompletionTokens = 0, TotalTokens = 0\<rparr>"






subsection \<open>A sample deployment\<close>

text \<open>
  Concrete values for the parameters, on which the theorems below are run: the channel
  type numbers of the upstream project, two priced models, a JSON codec that knows one
  request and one model mapping, and token counters that count bytes.
\<close>

definition sample_common :: common where
  "sample_common =
     \<lparr>ChannelTypeOpenAI = 1, ChannelTypeAzure = 3, ChannelTypeAnthropic = 14,
      ChannelTypeBaidu = 15, ChannelTypePaLM = 11, ChannelTypeZhipu = 16, ChannelTypeAli = 17,
      ChannelTypeXunfei = 18, ChannelTypeAIProxyLibrary = 21, ChannelTypeTencent = 23,
      ChannelTypeOpenAIWeb = 24,
      ChannelBaseURLs = (\<lambda>t. if t = 1 then ''https://api.openai.com'' else []),
      PreConsumedQuota = 500, BatchUpdateEnabled = False,
      GetModelRatio = (\<lambda>m. if m = ''gpt-4'' then 15 else if m = ''gpt-3.5-turbo'' then 3 / 4 else 30),
      GetGroupRatio = (\<lambda>g. if g = ''vip'' then 1 / 2 else 1),
      GetCompletionRatio = (\<lambda>m. if HasPrefix m ''gpt-3.5'' then 4 / 3
                                 else if HasPrefix m ''gpt-4'' then 2 else 1)\<rparr>"

definition sample_request :: GeneralOpenAIRequest where
  "sample_request =
     \<lparr>Model = ''gpt-4'', Messages = [(''user'', ''hi'')], Prompt = [], Stream = False,
      MaxTokens = 0, Input = [], Instruction = []\<rparr>"

definition sample_deps :: relay_deps where
  "sample_deps =
     \<lparr>UnmarshalBodyReusable = (\<lambda>body. if body = ''{model:gpt-4,messages:[hi]}''
                                      then Some sample_request else None),
      Unmarshal_map = (\<lambda>s. if s = ''{gpt-4:gpt-3.5-turbo}''
                            then Some [''gpt-4'' \<mapsto> ''gpt-3.5-turbo''] else None),
      Marshal_request = (\<lambda>r. Some (''{model:'' @ Model r @ '',messages:[hi]}'')),
      countTokenMessages = (\<lambda>ms m. 7),
      countTokenInput = (\<lambda>s m. int (length s)),
      countTokenText = (\<lambda>s m. int (length s)),
      getFullRequestURL = (\<lambda>baseURL requestURL t. baseURL @ requestURL),
      GetAPIVersion = (\<lambda>c. ''2023-05-15''),
      Sprintf_2f = (\<lambda>x. if x = 15 then ''15.00'' else if x = 3 / 4 then ''0.75''
                         else if x = 1 then ''1.00'' else ''0.50'')\<rparr>"

definition sample_context :: relay_context where
  "sample_context =
     \<lparr>ctx_channel = 1, ctx_channel_id = 5, ctx_token_id = 3, ctx_id = 7,
      ctx_group = ''default'', ctx_token_name = ''t1'', ctx_model_mapping = [],
      ctx_base_url = [], ctx_full_url = [], ctx_async_num = 1, ctx_param_model = [],
      ctx_request_URL = ''/v1/chat/completions'',
      ctx_request_body = ''{model:gpt-4,messages:[hi]}''\<rparr>"

definition sample_ledger :: ledger where
  "sample_ledger =
     \<lparr>user_quota = (\<lambda>u. 1000000), user_quota_cache = (\<lambda>u. 1000000),
      user_used_quota = (\<lambda>u. 0), user_request_count = (\<lambda>u. 0),
      token_remain_quota = (\<lambda>t. 20000), channel_used_quota = (\<lambda>k. 0),
      batch_channel_used_quota = [], consume_logs = [], calls = [], out_of_reach = {}\<rparr>"

definition sample_billing :: billing where
  "sample_billing =
     \<lparr>promptTokens = 7, modelRatio = 15, groupRatio = 1, ratio = 15, estimatedQuota = 7500,
      preConsumedQuota = 0, userQuota = 1000000\<rparr>"



subsection \<open>Package election: the leader lease\<close>

text \<open>
  A \<open>time.Duration\<close> is a signed 64-bit count of nanoseconds. Products wrap around, and
  \<open>/\<close> truncates towards zero.
\<close>

definition wrap64 :: "int \<Rightarrow> int" where
  "wrap64 x = signed_take_bit 63 x"

definition go_quot :: "int \<Rightarrow> int \<Rightarrow> int" where
  "go_quot a b = sgn a * sgn b * (\<bar>a\<bar> div \<bar>b\<bar>)"

definition Millisecond :: int where
  "Millisecond = 1000000"

definition Second :: int where
  "Second = 1000000000"

text \<open>
  Lines 57 to 66. \<open>viper.GetInt\<close> gives 0 for a key that is not set (\<open>None\<close>). The
  results are the lease in seconds, the lease TTL and the renew interval.
\<close>

definition GetInt :: "int option \<Rightarrow> int" where
  "GetInt v = (case v of None \<Rightarrow> 0 | Some n \<Rightarrow> n)"

definition lease_seconds :: "int option \<Rightarrow> int" where
  "lease_seconds configured =
     (let leaseSeconds = GetInt configured in
      if leaseSeconds \<le> 0 then 15 else leaseSeconds)"

definition lease_TTL :: "int option \<Rightarrow> int" where
  "lease_TTL configured = wrap64 (lease_seconds configured * Second)"


text \<open>Line 114: the TTL handed to the renewal script, in milliseconds.\<close>

definition ttl_millis :: "int option \<Rightarrow> int" where
  "ttl_millis configured = go_quot (lease_TTL configured) Millisecond"

text \<open>
  The lease key in the shared store: absent, or a value with its time to live in
  milliseconds.
\<close>

type_synonym lease_key = "(string \<times> int) option"

text \<open>
  What a Redis command leaves in Go's \<open>interface{}\<close> result: an \<open>int64\<close>, nil, or
  something else.
\<close>

datatype kv_reply = Int64 int | Nil | Bulk string

text \<open>
  \<open>SET key value NX PX ttl\<close>, as \<open>client.SetNX\<close> sends it: the key is written only when
  it is absent.
\<close>

definition SetNX :: "lease_key \<Rightarrow> string \<Rightarrow> int \<Rightarrow> lease_key \<times> bool" where
  "SetNX store v ttl = (case store of None \<Rightarrow> (Some (v, ttl), True) | Some held \<Rightarrow> (store, False))"

text \<open>\<open>PEXPIRE\<close> on an existing key: a time to live that is not positive deletes the key.\<close>

definition PEXPIRE :: "string \<Rightarrow> int \<Rightarrow> lease_key \<times> int" where
  "PEXPIRE v ttl = (if ttl \<le> 0 then (None, 1) else (Some (v, ttl), 1))"

text \<open>The script \<open>renewLua\<close> of lines 21 to 28, run atomically by the store.\<close>

definition renewLua :: "lease_key \<Rightarrow> string \<Rightarrow> int \<Rightarrow> lease_key \<times> int" where
  "renewLua store nodeID ttlMillis =
     (case store of
        None \<Rightarrow> (store, 0)
      | Some (v, ttl) \<Rightarrow> if v = nodeID then PEXPIRE v ttlMillis else (store, 0))"

text \<open>
  What happens to one command on the way: it is delivered and answered; it never
  reaches the store; it is run but the answer is lost; or it is run and something else
  comes back in place of the answer.
\<close>

datatype transport = Delivered | Request_lost | Reply_lost | Reply_replaced kv_reply

text \<open>The loop's state: the local \<open>isLeader\<close> and the global \<open>config.IsMasterNode\<close>.\<close>

record node_state =
  isLeader :: bool
  IsMasterNode :: bool

text \<open>Lines 87 to 110: one round of a follower. An error leaves \<open>ok\<close> false.\<close>

definition follower_round ::
  "string \<Rightarrow> int \<Rightarrow> transport \<Rightarrow> node_state \<times> lease_key \<Rightarrow> node_state \<times> lease_key" where
  "follower_round nodeID ttl tr st =
     (let (node, store) = st;
          (store1, ok) =
            (case tr of
               Delivered \<Rightarrow> SetNX store nodeID ttl
             | Request_lost \<Rightarrow> (store, False)
             | Reply_lost \<Rightarrow> (fst (SetNX store nodeID ttl), False)
             | Reply_replaced r \<Rightarrow> (fst (SetNX store nodeID ttl), False))
      in if ok then (node\<lparr>isLeader := True, IsMasterNode := True\<rparr>, store1)
         else (node\<lparr>IsMasterNode := False\<rparr>, store1))"

text \<open>
  Lines 115 to 118: what \<open>renewScript.Run(...).Result()\<close> gives the leader. With an
  error the result is nil.
\<close>

definition run_renew :: "string \<Rightarrow> int \<Rightarrow> transport \<Rightarrow> lease_key \<Rightarrow> lease_key \<times> kv_reply" where
  "run_renew nodeID ttlMillis tr store =
     (case tr of
        Delivered \<Rightarrow> (fst (renewLua store nodeID ttlMillis), Int64 (snd (renewLua store nodeID ttlMillis)))
      | Request_lost \<Rightarrow> (store, Nil)
      | Reply_lost \<Rightarrow> (fst (renewLua store nodeID ttlMillis), Nil)
      | Reply_replaced r \<Rightarrow> (fst (renewLua store nodeID ttlMillis), r))"

text \<open>Lines 120 to 140: the type switch on the result.\<close>

definition after_renew :: "kv_reply \<Rightarrow> node_state \<Rightarrow> node_state" where
  "after_renew res node =
     (case res of
        Int64 v \<Rightarrow> if v = 1 then node else node\<lparr>isLeader := False, IsMasterNode := False\<rparr>
      | Nil \<Rightarrow> node\<lparr>isLeader := False, IsMasterNode := False\<rparr>
      | Bulk s \<Rightarrow> node\<lparr>isLeader := False, IsMasterNode := False\<rparr>)"

definition leader_round ::
  "string \<Rightarrow> int \<Rightarrow> transport \<Rightarrow> node_state \<times> lease_key \<Rightarrow> node_state \<times> lease_key" where
  "leader_round nodeID ttlMillis tr st =
     (let (node, store) = st;
          (store1, res) = run_renew nodeID ttlMillis tr store
      in (after_renew res node, store1))"

text \<open>
  Lines 86 to 143: one round of the loop, and the loop over the transport outcomes of
  its rounds. The lease given to \<open>SetNX\<close> is \<open>leaseTTL\<close>, which the store keeps in
  milliseconds.
\<close>

definition election_round ::
  "string \<Rightarrow> int option \<Rightarrow> transport \<Rightarrow> node_state \<times> lease_key \<Rightarrow> node_state \<times> lease_key" where
  "election_round nodeID configured tr st =
     (if \<not> isLeader (fst st) then follower_round nodeID (ttl_millis configured) tr st
      else leader_round nodeID (ttl_millis configured) tr st)"

fun election_loop ::
  "string \<Rightarrow> int option \<Rightarrow> transport list \<Rightarrow> node_state \<times> lease_key \<Rightarrow> node_state \<times> lease_key" where
  "election_loop nodeID configured [] st = st"
| "election_loop nodeID configured (tr # trs) st =
     election_loop nodeID configured trs (election_round nodeID configured tr st)"

subsection \<open>Package realtime: the pub/sub listener\<close>

text \<open>A message as the subscriber receives it: its topic and its payload.\<close>

record message =
  msg_Channel :: string
  msg_Payload :: string

text \<open>The two reloads a message can trigger: \<open>safeReloadOptions\<close> and \<open>safeReloadChannels\<close>.\<close>

datatype reload = ReloadOptions | ReloadChannels

text \<open>\<open>strings.TrimSpace\<close> on the ASCII white space.\<close>

definition is_space :: "char \<Rightarrow> bool" where
  "is_space ch = (ch \<in> {CHR '' '', CHR 0x09, CHR 0x0A, CHR 0x0B, CHR 0x0C, CHR 0x0D})"

definition TrimSpace :: "string \<Rightarrow> string" where
  "TrimSpace s = rev (dropWhile is_space (rev (dropWhile is_space s)))"

text \<open>
  Lines 54 to 79: what one received message triggers. The topic names are constants of
  the Redis package, taken as parameters. A message whose origin is the node's own
  instance id is skipped (\<open>continue\<close>).
\<close>

definition handle_message :: "string \<Rightarrow> string \<Rightarrow> string \<Rightarrow> message \<Rightarrow> reload list" where
  "handle_message InstanceID RedisTopicOptionsSync RedisTopicChannelsSync msg =
     (let payload0 = msg_Payload msg;
          sep = Index payload0 ''|''
      in if sep > 0 \<and> take (nat sep) payload0 = InstanceID then []
         else
           (let payload = (if sep > 0 then drop (nat (sep + 1)) payload0 else payload0)
            in if msg_Channel msg = RedisTopicOptionsSync then
                 (if TrimSpace payload = [] \<or> HasPrefix payload ''reload''
                  then [ReloadOptions] else [ReloadOptions])
               else if msg_Channel msg = RedisTopicChannelsSync then [ReloadChannels]
               else []))"

text \<open>
  Lines 43 to 80: the subscriber loop over what \<open>ReceiveMessage\<close> returns, a message or
  an error (which is \<open>context.Canceled\<close> or not), and the reloads it triggers in order.
\<close>

datatype received = Message message | Receive_error bool

fun subscriber_loop :: "string \<Rightarrow> string \<Rightarrow> string \<Rightarrow> received list \<Rightarrow> reload list" where
  "subscriber_loop InstanceID optionsTopic channelsTopic [] = []"
| "subscriber_loop InstanceID optionsTopic channelsTopic (Receive_error canceled # rest) =
     (if canceled then [] else subscriber_loop InstanceID optionsTopic channelsTopic rest)"
| "subscriber_loop InstanceID optionsTopic channelsTopic (Message msg # rest) =
     handle_message InstanceID optionsTopic channelsTopic msg
     @ subscriber_loop InstanceID optionsTopic channelsTopic rest"

text \<open>
  The origin instance id of a payload in the spec's words, for comparison with what the
  listener extracts: a payload has the form \<open>{origin_instance_id}|{payload}\<close>, so the
  origin is the text before the first \<open>|\<close>.
\<close>

definition spec_origin_instance_id :: "string \<Rightarrow> string option" where
  "spec_origin_instance_id payload =
     (if CHR ''|'' \<in> set payload then Some (takeWhile (\<lambda>ch. ch \<noteq> CHR ''|'') payload) else None)"

definition self_origin :: "string \<Rightarrow> received \<Rightarrow> bool" where
  "self_origin InstanceID r =
     (case r of
        Message msg \<Rightarrow> spec_origin_instance_id (msg_Payload msg) = Some InstanceID
      | Receive_error canceled \<Rightarrow> False)"

subsection \<open>Package controller: the racing dispatcher\<close>

text \<open>
  \<open>asyncHTTPDo\<close> runs goroutines that meet on an unbuffered channel. The model is its
  state with one transition for each place where the scheduler chooses: a call of
  \<open>timeoutHTTPClient.Do\<close> returns in some attempt, the main loop takes one of the three
  cases of its \<open>select\<close>, or \<open>wg.Wait\<close> returns in the watcher. A run is a list of such
  events, each enabled in the state it meets.
\<close>

datatype attempt = Initial nat | Escalation

datatype request_ref = Original | Clone nat

text \<open>A request: the object it is, the body bytes still to be read, and its length field.\<close>

record http_request =
  req_ref :: request_ref
  req_Body :: string
  req_ContentLength :: int

record http_response =
  resp_StatusCode :: int
  resp_Body :: string

text \<open>
  The variables of \<open>asyncHTTPDo\<close>: \<open>asyncNum\<close>, \<open>req\<close> (as the setup leaves it), \<open>reqs\<close>, the
  keys of \<open>cancelFuncs\<close>, \<open>resps\<close>, \<open>lastErr\<close>; the goroutines inside \<open>Do\<close> and those
  blocked on \<open>respCh <- resp\<close>, in the order they arrived; whether the tick of the timer
  has been taken and whether the watcher has closed \<open>done\<close> and \<open>respCh\<close>; and what the
  function returned. Beside them the model records the cancel functions invoked so
  far, the goroutines started with the request each was given, the attempt whose
  response was returned, and the bodies closed by the deferred function.
\<close>

record dispatcher =
  d_asyncNum :: int
  d_req :: http_request
  d_reqs :: "http_request list"
  d_cancelFuncs :: "nat list"
  d_resps :: "http_response list"
  d_lastErr :: "string option"
  d_running :: "attempt list"
  d_sending :: "(attempt \<times> http_response) list"
  d_timer_taken :: bool
  d_closed :: bool
  d_returned :: "(http_response option \<times> string option) option"
  d_canceled :: "nat list"
  d_launched :: "(attempt \<times> http_request) list"
  d_winner :: "attempt option"
  d_closed_bodies :: "http_response list"

text \<open>
  How a call of \<open>asyncHTTPDo\<close> begins: \<open>make\<close> panics on a negative length; \<open>io.ReadAll\<close>
  fails and the function returns nil with its error; or the attempts are started.
\<close>

datatype 'a begun = Panicked go_panic | Returned_early string | Started 'a

text \<open>
  Lines 703 to 760: the setup, up to the start of the attempts. \<open>io.ReadAll\<close> drains the
  body of \<open>req\<close> and gives its bytes (\<open>Inr\<close>) or an error (\<open>Inl\<close>). With \<open>asyncNum = 1\<close> the
  only attempt is given \<open>req\<close> itself with a fresh body; otherwise each attempt is given
  a clone with a fresh body, and the body of \<open>req\<close> stays drained.
\<close>

definition asyncHTTPDo_setup ::
  "http_request \<Rightarrow> string + string \<Rightarrow> int \<Rightarrow> dispatcher begun" where
  "asyncHTTPDo_setup req readAll asyncNum =
     (if asyncNum < 0 then Panicked MakesliceLenOutOfRange
      else
        (case readAll of
           Inl err \<Rightarrow> Returned_early err
         | Inr bodyBytes \<Rightarrow>
             (let n = nat asyncNum;
                  req1 = (if asyncNum = 1
                          then req\<lparr>req_Body := bodyBytes,
                                   req_ContentLength := int (length bodyBytes)\<rparr>
                          else req\<lparr>req_Body := []\<rparr>);
                  reqs = (if asyncNum = 1 then [req1]
                          else map (\<lambda>i. req\<lparr>req_ref := Clone i, req_Body := bodyBytes,
                                            req_ContentLength := int (length bodyBytes)\<rparr>)
                                 [0..<n])
              in Started
                   \<lparr>d_asyncNum = asyncNum, d_req = req1, d_reqs = reqs,
                    d_cancelFuncs = [0..<n], d_resps = [], d_lastErr = None,
                    d_running = map Initial [0..<n], d_sending = [],
                    d_timer_taken = False, d_closed = False, d_returned = None,
                    d_canceled = [], d_launched = zip (map Initial [0..<n]) reqs,
                    d_winner = None, d_closed_bodies = []\<rparr>)))"

datatype event =
  Do_returns attempt "string + http_response"
  | Receive
  | Timer
  | Wait_returns
  | Done

text \<open>
  Lines 745 to 758 and 803 to 810: \<open>Do\<close> returns in an attempt. On an error the attempt
  records it, an initial attempt invokes its own cancel function, and the goroutine
  ends. On a response an initial attempt deletes its entry of \<open>cancelFuncs\<close> when the
  status is 200; then the attempt blocks on the send. A send on the closed channel
  panics; the panic is recovered and the goroutine ends.
\<close>

definition do_returns :: "attempt \<Rightarrow> string + http_response \<Rightarrow> dispatcher \<Rightarrow> dispatcher" where
  "do_returns a res s =
     (let s1 = s\<lparr>d_running := removeAll a (d_running s)\<rparr> in
      case res of
        Inl err \<Rightarrow>
          (case a of
             Initial i \<Rightarrow> s1\<lparr>d_lastErr := Some err, d_canceled := d_canceled s1 @ [i]\<rparr>
           | Escalation \<Rightarrow> s1\<lparr>d_lastErr := Some err\<rparr>)
      | Inr resp \<Rightarrow>
          (let s2 = (case a of
                       Initial i \<Rightarrow>
                         if resp_StatusCode resp = 200
                         then s1\<lparr>d_cancelFuncs := removeAll i (d_cancelFuncs s1)\<rparr> else s1
                     | Escalation \<Rightarrow> s1)
           in if d_closed s2 then s2 else s2\<lparr>d_sending := d_sending s2 @ [(a, resp)]\<rparr>))"

text \<open>
  Lines 780 to 792: the main loop receives a response. A status of 200 stops the timer,
  invokes every cancel function left in the table and returns the response; the
  deferred function closes the bodies in \<open>resps\<close>. Any other response is appended to
  \<open>resps\<close>.
\<close>

definition receive :: "attempt \<times> http_response \<Rightarrow> dispatcher \<Rightarrow> dispatcher" where
  "receive m s =
     (let (a, resp) = m; s1 = s\<lparr>d_sending := tl (d_sending s)\<rparr> in
      if resp_StatusCode resp = 200
      then s1\<lparr>d_canceled := d_canceled s1 @ d_cancelFuncs s1,
              d_returned := Some (Some resp, None),
              d_winner := Some a,
              d_closed_bodies := d_resps s1\<rparr>
      else s1\<lparr>d_resps := d_resps s1 @ [resp]\<rparr>)"

text \<open>
  Lines 793 to 812: the main loop takes the tick of the timer. With \<open>asyncNum > 1\<close> one
  more goroutine is started, on \<open>req\<close>; it has no entry in \<open>cancelFuncs\<close>.
\<close>

definition timer_tick :: "dispatcher \<Rightarrow> dispatcher" where
  "timer_tick s =
     (let s1 = s\<lparr>d_timer_taken := True\<rparr> in
      if d_asyncNum s1 > 1
      then s1\<lparr>d_running := d_running s1 @ [Escalation],
              d_launched := d_launched s1 @ [(Escalation, d_req s1)]\<rparr>
      else s1)"

text \<open>
  Lines 813 to 824: the main loop finds \<open>done\<close> closed. It invokes every cancel function
  left in the table and returns the first response of \<open>resps\<close>, or nil, with \<open>lastErr\<close>;
  the deferred function closes the bodies of the others.
\<close>

definition all_done :: "dispatcher \<Rightarrow> dispatcher" where
  "all_done s =
     (let s1 = s\<lparr>d_canceled := d_canceled s @ d_cancelFuncs s\<rparr> in
      case d_resps s1 of
        [] \<Rightarrow> s1\<lparr>d_returned := Some (None, d_lastErr s1)\<rparr>
      | resp # rest \<Rightarrow>
          s1\<lparr>d_resps := rest, d_returned := Some (Some resp, d_lastErr s1),
             d_closed_bodies := rest\<rparr>)"

text \<open>
  One event. \<open>Do\<close> returns only in a goroutine that is inside it. The main loop takes a
  case only while the function has not returned: a receive when a sender waits, the
  tick once, \<open>done\<close> when it is closed. \<open>wg.Wait\<close> returns, once, when no goroutine is
  left (lines 762 to 768); that the watcher then stops the timer is not modelled, so
  that a tick already sent can still be taken.
\<close>

definition step :: "event \<Rightarrow> dispatcher \<Rightarrow> dispatcher option" where
  "step e s =
     (case e of
        Do_returns a res \<Rightarrow> if a \<in> set (d_running s) then Some (do_returns a res s) else None
      | Receive \<Rightarrow>
          (case d_sending s of
             [] \<Rightarrow> None
           | m # ms \<Rightarrow> if d_returned s = None then Some (receive m s) else None)
      | Timer \<Rightarrow>
          if d_returned s = None \<and> \<not> d_timer_taken s then Some (timer_tick s) else None
      | Wait_returns \<Rightarrow>
          if \<not> d_closed s \<and> d_running s = [] \<and> d_sending s = []
          then Some (s\<lparr>d_closed := True\<rparr>) else None
      | Done \<Rightarrow> if d_returned s = None \<and> d_closed s then Some (all_done s) else None)"

fun run :: "event list \<Rightarrow> dispatcher \<Rightarrow> dispatcher option" where
  "run [] s = Some s"
| "run (e # es) s = (case step e s of None \<Rightarrow> None | Some s1 \<Rightarrow> run es s1)"

text \<open>
  \<open>asyncHTTPDo\<close> under a schedule: the state the schedule leads to, \<open>None\<close> when the
  schedule asks for an event that cannot happen.
\<close>

definition asyncHTTPDo ::
  "http_request \<Rightarrow> string + string \<Rightarrow> int \<Rightarrow> event list \<Rightarrow> dispatcher option begun" where
  "asyncHTTPDo req readAll asyncNum evs =
     (case asyncHTTPDo_setup req readAll asyncNum of
        Panicked p \<Rightarrow> Panicked p
      | Returned_early err \<Rightarrow> Returned_early err
      | Started s0 \<Rightarrow> Started (run evs s0))"

text \<open>The attempts of a schedule in which \<open>Do\<close> returned a response with status 200, in order.\<close>

fun completed_200 :: "event list \<Rightarrow> (attempt \<times> http_response) list" where
  "completed_200 [] = []"
| "completed_200 (Do_returns a (Inr resp) # es) =
     (if resp_StatusCode resp = 200 then (a, resp) # completed_200 es else completed_200 es)"
| "completed_200 (e # es) = completed_200 es"

text \<open>The goroutines started by the tick of the timer, with the request each was given.\<close>

definition escalations :: "dispatcher \<Rightarrow> (attempt \<times> http_request) list" where
  "escalations s = filter (\<lambda>p. fst p = Escalation) (d_launched s)"

text \<open>A sample request with a body of five bytes.\<close>

definition sample_http_request :: http_request where
  "sample_http_request = \<lparr>req_ref = Original, req_Body = ''hello'', req_ContentLength = 5\<rparr>"

definition ok_response :: http_response where
  "ok_response = \<lparr>resp_StatusCode = 200, resp_Body = ''data: hi''\<rparr>"

definition bad_response :: http_response where
  "bad_response = \<lparr>resp_StatusCode = 500, resp_Body = ''overloaded''\<rparr>"

text \<open>
  Invariants of the dispatcher. The goroutines are distinct, the escalation exists only
  after the tick, nobody waits on the closed channel, and \<open>resps\<close> holds no status 200.
\<close>

definition waiting :: "dispatcher \<Rightarrow> attempt list" where
  "waiting s = d_running s @ map fst (d_sending s)"

definition inv_queue :: "dispatcher \<Rightarrow> bool" where
  "inv_queue s =
     (distinct (waiting s)
      \<and> (\<not> d_timer_taken s \<longrightarrow> Escalation \<notin> set (waiting s))
      \<and> (d_closed s \<longrightarrow> d_sending s = [])
      \<and> (\<forall>r \<in> set (d_resps s). resp_StatusCode r \<noteq> 200))"

text \<open>
  Until the function returns, a cancel function has been invoked only by its own
  attempt on an error, and an attempt that waits with a status 200 has left the table
  and is not canceled. Once a winner is chosen, it is out of the table and not
  canceled, and every entry left in the table has been invoked.
\<close>

definition inv_cancel :: "dispatcher \<Rightarrow> bool" where
  "inv_cancel s =
     ((d_returned s = None \<longrightarrow>
         (\<forall>i \<in> set (d_canceled s). Initial i \<notin> set (waiting s))
         \<and> (\<forall>i r. (Initial i, r) \<in> set (d_sending s) \<and> resp_StatusCode r = 200 \<longrightarrow>
               i \<notin> set (d_cancelFuncs s) \<and> i \<notin> set (d_canceled s)))
      \<and> (\<forall>a. d_winner s = Some a \<longrightarrow>
            d_returned s \<noteq> None \<and> a \<notin> set (d_running s)
            \<and> set (d_cancelFuncs s) \<subseteq> set (d_canceled s)
            \<and> (\<forall>i. a = Initial i \<longrightarrow> i \<notin> set (d_canceled s) \<and> i \<notin> set (d_cancelFuncs s))))"

definition is_200 :: "attempt \<times> http_response \<Rightarrow> bool" where
  "is_200 m = (resp_StatusCode (snd m) = 200)"

text \<open>
  While the function has not returned and the channel is open, the waiting status-200
  responses are all that completed so far, in order; a returned status 200 is the
  first that completed, and comes with a nil error.
\<close>

definition inv_first :: "event list \<Rightarrow> dispatcher \<Rightarrow> bool" where
  "inv_first evs s =
     ((d_returned s = None \<and> \<not> d_closed s \<longrightarrow> filter is_200 (d_sending s) = completed_200 evs)
      \<and> (\<forall>r err. d_returned s = Some (Some r, err) \<and> resp_StatusCode r = 200 \<longrightarrow>
            err = None \<and> (\<exists>a rest. d_winner s = Some a \<and> completed_200 evs = (a, r) # rest)))"

text \<open>
  The tick is taken at most once; \<open>asyncNum\<close> and \<open>req\<close> never change; and the
  escalations are none before the tick, and after it one on \<open>req\<close> when \<open>asyncNum > 1\<close>.
\<close>

definition inv_timer :: "int \<Rightarrow> http_request \<Rightarrow> event list \<Rightarrow> dispatcher \<Rightarrow> bool" where
  "inv_timer N q evs s =
     (d_asyncNum s = N \<and> d_req s = q
      \<and> d_timer_taken s = (Timer \<in> set evs)
      \<and> length (filter (\<lambda>e. e = Timer) evs) \<le> 1
      \<and> escalations s = (if Timer \<in> set evs \<and> 1 < N then [(Escalation, q)] else []))"

section \<open>Theorems\<close>

subsection \<open>Facts about the string functions\<close>

lemma Index_char:
  "Index s [ch] =
     (if ch \<in> set s then int (length (takeWhile (\<lambda>x. x \<noteq> ch) s)) else - 1)"
  by (induction s) (auto simp: HasPrefix_def Let_def)

subsection \<open>Channel accessors\<close>

text \<open>
  Claim C10. For every Channel value the accessors are total on nil optional fields:
  \<open>GetPriority\<close> returns 0 when the \<open>Priority\<close> pointer is nil, \<open>GetBaseURL\<close> and
  \<open>GetModelMapping\<close> return the empty string when their pointers are nil, and none of
  the three ever ends in a nil-pointer dereference (each returns a value, the pointed-to
  one when the pointer is set).
\<close>

theorem accessors_total_on_nil:
  "(Priority channel = None \<longrightarrow> GetPriority channel = Inr 0)
   \<and> (BaseURL channel = None \<longrightarrow> GetBaseURL channel = Inr [])
   \<and> (ModelMapping channel = None \<longrightarrow> GetModelMapping channel = Inr [])
   \<and> (\<forall>p. Priority channel = Some p \<longrightarrow> GetPriority channel = Inr p)
   \<and> (\<forall>u. BaseURL channel = Some u \<longrightarrow> GetBaseURL channel = Inr u)
   \<and> (\<forall>m. ModelMapping channel = Some m \<longrightarrow> GetModelMapping channel = Inr m)
   \<and> GetPriority channel \<noteq> Inl NilPointerDereference
   \<and> GetBaseURL channel \<noteq> Inl NilPointerDereference
   \<and> GetModelMapping channel \<noteq> Inl NilPointerDereference"
  by (simp add: GetPriority_def GetBaseURL_def GetModelMapping_def deref_def
      split: option.split)

theorem accessors_total_on_nil_witness:
  "GetPriority nil_channel = Inr 0
   \<and> GetBaseURL nil_channel = Inr []
   \<and> GetModelMapping nil_channel = Inr []
   \<and> GetPriority (nil_channel\<lparr>Priority := Some 7\<rparr>) = Inr 7
   \<and> GetBaseURL (nil_channel\<lparr>BaseURL := Some ''https://api.example.com''\<rparr>)
       = Inr ''https://api.example.com''
   \<and> GetModelMapping (nil_channel\<lparr>ModelMapping := Some ''{}''\<rparr>) = Inr ''{}''"
  using accessors_total_on_nil [of nil_channel]
    accessors_total_on_nil [of "nil_channel\<lparr>Priority := Some 7\<rparr>"]
    accessors_total_on_nil [of "nil_channel\<lparr>BaseURL := Some ''https://api.example.com''\<rparr>"]
    accessors_total_on_nil [of "nil_channel\<lparr>ModelMapping := Some ''{}''\<rparr>"]
  by (simp add: nil_channel_def)

subsection \<open>The request path of an Azure channel\<close>

lemma Replace_from_dot: "Replace_from 0 s ''.'' '''' = filter (\<lambda>c. c \<noteq> CHR ''.'') s"
  by (induction s) (auto simp: HasPrefix_def)

lemma Replace_dot: "Replace s ''.'' '''' = filter (\<lambda>c. c \<noteq> CHR ''.'') s"
  by (simp add: Replace_def Replace_from_dot)

lemma set_TrimSuffix: "set (TrimSuffix s suf) \<subseteq> set s"
  by (auto simp: TrimSuffix_def dest: in_set_takeD)

lemma azure_model_name_chain:
  "azure_model_name m =
     TrimSuffix (TrimSuffix (TrimSuffix (filter (\<lambda>c. c \<noteq> CHR ''.'') m) ''-0301'') ''-0314'') ''-0613''"
  by (simp add: azure_model_name_def Replace_dot)

lemma set_azure_model_name:
  "set (azure_model_name m) \<subseteq> set (filter (\<lambda>c. c \<noteq> CHR ''.'') m)"
proof -
  let ?f = "filter (\<lambda>c. c \<noteq> CHR ''.'') m"
  have "set (TrimSuffix (TrimSuffix (TrimSuffix ?f ''-0301'') ''-0314'') ''-0613'')
        \<subseteq> set (TrimSuffix (TrimSuffix ?f ''-0301'') ''-0314'')"
    by (rule set_TrimSuffix)
  also have "\<dots> \<subseteq> set (TrimSuffix ?f ''-0301'')" by (rule set_TrimSuffix)
  also have "\<dots> \<subseteq> set ?f" by (rule set_TrimSuffix)
  finally show ?thesis by (simp add: azure_model_name_chain)
qed

lemma azure_model_name_no_dot: "CHR ''.'' \<notin> set (azure_model_name m)"
  using set_azure_model_name [of m] by auto

lemma Split_first_question_mark:
  "Split_first s ''?'' = takeWhile (\<lambda>c. c \<noteq> CHR ''?'') s"
proof (cases "CHR ''?'' \<in> set s")
  case True
  then show ?thesis
    by (simp add: Split_first_def Index_char takeWhile_eq_take [symmetric])
next
  case False
  then have eq: "takeWhile (\<lambda>c. c \<noteq> CHR ''?'') s = s"
    by (induction s) auto
  from False have "Split_first s ''?'' = s"
    by (simp add: Split_first_def Index_char)
  then show ?thesis by (simp only: eq)
qed

lemma HasPrefix_v1_query:
  "HasPrefix (a @ CHR ''?'' # r) ''/v1/'' = HasPrefix a ''/v1/''"
proof (cases "4 \<le> length a")
  case True
  then show ?thesis by (simp add: HasPrefix_def)
next
  case False
  then consider "length a = 0" | "length a = 1" | "length a = 2" | "length a = 3"
    by linarith
  then show ?thesis
  proof cases
    case 1
    then show ?thesis by (simp add: HasPrefix_def)
  next
    case 2
    then show ?thesis by (cases a) (auto simp: HasPrefix_def)
  next
    case 3
    then show ?thesis by (cases a; cases "tl a") (auto simp: HasPrefix_def)
  next
    case 4
    then show ?thesis
      by (cases a; cases "tl a"; cases "tl (tl a)") (auto simp: HasPrefix_def)
  qed
qed

lemma TrimPrefix_v1_query:
  "TrimPrefix (a @ CHR ''?'' # r) ''/v1/'' = TrimPrefix a ''/v1/'' @ CHR ''?'' # r"
proof (cases "HasPrefix a ''/v1/''")
  case True
  then have "take (length ''/v1/'') a = ''/v1/''"
    unfolding HasPrefix_def .
  then have "length (take (length ''/v1/'') a) = length ''/v1/''"
    by (rule arg_cong)
  then have "4 \<le> length a" by simp
  with True show ?thesis by (simp add: TrimPrefix_def HasPrefix_v1_query)
next
  case False
  then show ?thesis by (simp add: TrimPrefix_def HasPrefix_v1_query)
qed

lemma azure_request_URL_shape:
  "azure_request_URL requestURL apiVersion m =
     ''/openai/deployments/'' @ azure_model_name m @ ''/''
       @ TrimPrefix (Split_first requestURL ''?'') ''/v1/'' @ ''?api-version='' @ apiVersion"
  using TrimPrefix_v1_query [of "Split_first requestURL ''?''" "''api-version='' @ apiVersion"]
  by (simp add: azure_request_URL_def)

text \<open>
  Claim C9, as stated, at its own example: the model \<open>gpt-4.0613\<close> does not sanitize to
  \<open>gpt-4\<close>. Once the dot is removed the name is \<open>gpt-40613\<close>, which does not end in
  \<open>-0613\<close>, so nothing is stripped.
\<close>

theorem azure_gpt4_0613_not_gpt4:
  "azure_model_name ''gpt-4.0613'' = ''gpt-40613'' \<and> azure_model_name ''gpt-4.0613'' \<noteq> ''gpt-4''"
  by (simp add: azure_model_name_chain TrimSuffix_def HasSuffix_def)

text \<open>
  Claim C9, amended. For every request on an Azure-type channel (API type
  \<open>APITypeOpenAI\<close>, channel type \<open>ChannelTypeAzure\<close>) the outbound URL is
  \<open>getFullRequestURL\<close> of the context's base URL and the path
  \<open>/openai/deployments/{sanitized_model}/{task}?api-version=...\<close>, where the task is the
  request path without its query and without a leading \<open>/v1/\<close>. Sanitization removes
  every \<open>.\<close> from the model name and then strips a trailing \<open>-0301\<close>, then a trailing
  \<open>-0314\<close>, then a trailing \<open>-0613\<close>; in particular \<open>gpt-4.0613\<close> sanitizes to
  \<open>gpt-40613\<close> and \<open>gpt-3.5-turbo-0613\<close> to \<open>gpt-35-turbo\<close>.
\<close>

theorem azure_deployment_URL:
  assumes "api_type_of cm (ctx_channel c) = APITypeOpenAI"
    and "ctx_channel c = ChannelTypeAzure cm"
  shows "openai_full_request_URL cm deps c textRequest =
           getFullRequestURL deps (ctx_base_url c)
             (''/openai/deployments/'' @ azure_model_name (Model textRequest) @ ''/''
                @ TrimPrefix (Split_first (ctx_request_URL c) ''?'') ''/v1/''
                @ ''?api-version='' @ GetAPIVersion deps c)
             (ctx_channel c)
         \<and> azure_model_name (Model textRequest) =
             TrimSuffix (TrimSuffix (TrimSuffix
               (filter (\<lambda>x. x \<noteq> CHR ''.'') (Model textRequest)) ''-0301'') ''-0314'') ''-0613''
         \<and> CHR ''.'' \<notin> set (azure_model_name (Model textRequest))
         \<and> azure_model_name ''gpt-4.0613'' = ''gpt-40613''
         \<and> azure_model_name ''gpt-3.5-turbo-0613'' = ''gpt-35-turbo''"
proof -
  have url: "openai_full_request_URL cm deps c textRequest =
           getFullRequestURL deps (ctx_base_url c)
             (''/openai/deployments/'' @ azure_model_name (Model textRequest) @ ''/''
                @ TrimPrefix (Split_first (ctx_request_URL c) ''?'') ''/v1/''
                @ ''?api-version='' @ GetAPIVersion deps c)
             (ctx_channel c)"
    using assms(2) by (simp add: openai_full_request_URL_def Let_def azure_request_URL_shape)
  have ex1: "azure_model_name ''gpt-4.0613'' = ''gpt-40613''"
    by (simp add: azure_model_name_chain TrimSuffix_def HasSuffix_def)
  have ex2: "azure_model_name ''gpt-3.5-turbo-0613'' = ''gpt-35-turbo''"
    by (simp add: azure_model_name_chain TrimSuffix_def HasSuffix_def)
  from url ex1 ex2 show ?thesis
    using azure_model_name_chain [of "Model textRequest"]
      azure_model_name_no_dot [of "Model textRequest"]
    by simp
qed

theorem azure_deployment_URL_witness:
  "openai_full_request_URL sample_common sample_deps
     (sample_context\<lparr>ctx_channel := 3, ctx_base_url := ''https://eu.openai.azure.com'',
                      ctx_request_URL := ''/v1/chat/completions?stream=1''\<rparr>)
     (sample_request\<lparr>Model := ''gpt-3.5-turbo-0613''\<rparr>)
   = ''https://eu.openai.azure.com/openai/deployments/gpt-35-turbo/chat/completions?api-version=2023-05-15''"
proof -
  let ?c = "sample_context\<lparr>ctx_channel := 3, ctx_base_url := ''https://eu.openai.azure.com'',
                      ctx_request_URL := ''/v1/chat/completions?stream=1''\<rparr>"
  have a: "api_type_of sample_common (ctx_channel ?c) = APITypeOpenAI"
    by (simp add: api_type_of_def sample_common_def sample_context_def)
  have b: "ctx_channel ?c = ChannelTypeAzure sample_common"
    by (simp add: sample_common_def sample_context_def)
  show ?thesis
    using azure_deployment_URL [OF a b, of sample_deps "sample_request\<lparr>Model := ''gpt-3.5-turbo-0613''\<rparr>"]
    by (simp add: sample_deps_def sample_context_def sample_request_def
        Split_first_question_mark TrimPrefix_def HasPrefix_def TrimSuffix_def HasSuffix_def)
qed

subsection \<open>Facts about the ledger calls shared by the relay theorems\<close>


lemma post_consume_calls:
  "calls (post_consume cm deps c textRequest b u l) =
     calls l
     @ [Call_PostConsumeTokenQuota (ctx_token_id c) (userQuota b)
          (settled_quota cm textRequest b u - preConsumedQuota b) (preConsumedQuota b) True,
        Call_CacheUpdateUserQuota (ctx_id c)]
     @ (if settled_quota cm textRequest b u \<noteq> 0 then
          [Call_RecordConsumeLog
             \<lparr>log_userId = ctx_id c, log_channelId = ctx_channel_id c,
              log_promptTokens = PromptTokens u, log_completionTokens = CompletionTokens u,
              log_modelName = Model textRequest, log_tokenName = ctx_token_name c,
              log_quota = settled_quota cm textRequest b u,
              log_content = logContent_text deps (modelRatio b) (groupRatio b),
              log_tokenId = ctx_token_id c, log_userQuota = userQuota b\<rparr>,
           Call_UpdateUserUsedQuotaAndRequestCount (ctx_id c) (settled_quota cm textRequest b u),
           Call_UpdateChannelUsedQuota (ctx_channel_id c) (settled_quota cm textRequest b u)]
        else [])"
  by (simp add: post_consume_def Let_def PostConsumeTokenQuota_def CacheUpdateUserQuota_def
      RecordConsumeLog_def UpdateUserUsedQuotaAndRequestCount_def UpdateChannelUsedQuota_def
      addNewRecord_ChannelUsedQuota_def updateChannelUsedQuota_def called_def)




subsection \<open>The settled quota\<close>





subsection \<open>Preconsumption\<close>




subsection \<open>Model mapping and pricing\<close>









subsection \<open>What a settlement writes\<close>

text \<open>
  Claim C6, as stated, fails for a settlement whose quota is zero (a call that produced
  no tokens): the ledger is called to settle the token and to refresh the user's cache,
  but no consume-log record is written and neither the user's nor the channel's
  used-quota counter is updated, because line 489 guards the three calls by
  \<open>quota != 0\<close>.
\<close>

theorem zero_quota_settlement_writes_no_log:
  "settled_quota sample_common sample_request sample_billing zero_usage = 0
   \<and> calls (post_consume sample_common sample_deps sample_context sample_request
         sample_billing zero_usage sample_ledger)
       = [Call_PostConsumeTokenQuota 3 1000000 0 0 True, Call_CacheUpdateUserQuota 7]
   \<and> consume_logs (post_consume sample_common sample_deps sample_context sample_request
         sample_billing zero_usage sample_ledger) = []
   \<and> user_request_count (post_consume sample_common sample_deps sample_context sample_request
         sample_billing zero_usage sample_ledger) 7 = 0"
proof -
  have q: "settled_quota sample_common sample_request sample_billing zero_usage = 0"
    by (simp add: settled_quota_def settle_quota_def zero_usage_def)
  show ?thesis
    using q
    by (simp add: post_consume_def Let_def PostConsumeTokenQuota_def
        CacheUpdateUserQuota_def called_def sample_context_def sample_billing_def
        sample_ledger_def)
qed

text \<open>
  Claim C6, amended. Every settlement calls \<open>PostConsumeTokenQuota\<close> with the settled
  quota less the preconsumed amount, which updates the token's remaining quota, and
  refreshes the user's quota cache. When the settled quota is not zero it also writes
  one consume-log record, whose free-text field carries the model ratio and the group
  ratio as \<open>%.2f\<close> prints them, and updates the user's used-quota counter and the
  channel's used-quota counter (at once, or through the batch queue when batch updates
  are enabled). When the settled quota is zero it does none of these three.
\<close>

theorem settlement_effects:
  "(let quota = settled_quota cm textRequest b u;
        l1 = post_consume cm deps c textRequest b u l;
        entry = \<lparr>log_userId = ctx_id c, log_channelId = ctx_channel_id c,
                 log_promptTokens = PromptTokens u, log_completionTokens = CompletionTokens u,
                 log_modelName = Model textRequest, log_tokenName = ctx_token_name c,
                 log_quota = quota,
                 log_content = logContent_text deps (modelRatio b) (groupRatio b),
                 log_tokenId = ctx_token_id c, log_userQuota = userQuota b\<rparr>
    in calls l1 = calls l
         @ [Call_PostConsumeTokenQuota (ctx_token_id c) (userQuota b)
              (quota - preConsumedQuota b) (preConsumedQuota b) True,
            Call_CacheUpdateUserQuota (ctx_id c)]
         @ (if quota \<noteq> 0 then
              [Call_RecordConsumeLog entry,
               Call_UpdateUserUsedQuotaAndRequestCount (ctx_id c) quota,
               Call_UpdateChannelUsedQuota (ctx_channel_id c) quota]
            else [])
       \<and> (Op_PostConsumeTokenQuota \<notin> out_of_reach l \<longrightarrow>
            token_remain_quota l1 (ctx_token_id c)
              = token_remain_quota l (ctx_token_id c) - (quota - preConsumedQuota b))
       \<and> consume_logs l1 = consume_logs l @ (if quota \<noteq> 0 then [entry] else [])
       \<and> user_used_quota l1 (ctx_id c) = user_used_quota l (ctx_id c) + quota
       \<and> user_request_count l1 (ctx_id c)
           = user_request_count l (ctx_id c) + (if quota \<noteq> 0 then 1 else 0)
       \<and> (\<not> BatchUpdateEnabled cm \<and> Op_updateChannelUsedQuota \<notin> out_of_reach l \<longrightarrow>
            channel_used_quota l1 (ctx_channel_id c)
              = channel_used_quota l (ctx_channel_id c) + quota)
       \<and> (BatchUpdateEnabled cm \<longrightarrow>
            batch_channel_used_quota l1
              = batch_channel_used_quota l
                @ (if quota \<noteq> 0 then [(ctx_channel_id c, quota)] else [])))"
  unfolding Let_def
  apply (intro conjI)
        apply (simp add: post_consume_calls)
       apply (simp add: post_consume_def Let_def PostConsumeTokenQuota_def CacheUpdateUserQuota_def
      RecordConsumeLog_def UpdateUserUsedQuotaAndRequestCount_def UpdateChannelUsedQuota_def
      addNewRecord_ChannelUsedQuota_def updateChannelUsedQuota_def called_def)
      apply (simp add: post_consume_def Let_def PostConsumeTokenQuota_def CacheUpdateUserQuota_def
      RecordConsumeLog_def UpdateUserUsedQuotaAndRequestCount_def UpdateChannelUsedQuota_def
      addNewRecord_ChannelUsedQuota_def updateChannelUsedQuota_def called_def)
     apply (simp add: post_consume_def Let_def PostConsumeTokenQuota_def CacheUpdateUserQuota_def
      RecordConsumeLog_def UpdateUserUsedQuotaAndRequestCount_def UpdateChannelUsedQuota_def
      addNewRecord_ChannelUsedQuota_def updateChannelUsedQuota_def called_def)
    apply (simp add: post_consume_def Let_def PostConsumeTokenQuota_def CacheUpdateUserQuota_def
      RecordConsumeLog_def UpdateUserUsedQuotaAndRequestCount_def UpdateChannelUsedQuota_def
      addNewRecord_ChannelUsedQuota_def updateChannelUsedQuota_def called_def)
   apply (simp add: post_consume_def Let_def PostConsumeTokenQuota_def CacheUpdateUserQuota_def
      RecordConsumeLog_def UpdateUserUsedQuotaAndRequestCount_def UpdateChannelUsedQuota_def
      addNewRecord_ChannelUsedQuota_def updateChannelUsedQuota_def called_def)
  apply (simp add: post_consume_def Let_def PostConsumeTokenQuota_def CacheUpdateUserQuota_def
      RecordConsumeLog_def UpdateUserUsedQuotaAndRequestCount_def UpdateChannelUsedQuota_def
      addNewRecord_ChannelUsedQuota_def updateChannelUsedQuota_def called_def)
  done

theorem settlement_effects_witness:
  "token_remain_quota (post_consume sample_common sample_deps sample_context sample_request
       sample_billing \<lparr>PromptTokens = 7, CompletionTokens = 5, TotalTokens = 12\<rparr> sample_ledger) 3
     = 19745
   \<and> channel_used_quota (post_consume sample_common sample_deps sample_context sample_request
       sample_billing \<lparr>PromptTokens = 7, CompletionTokens = 5, TotalTokens = 12\<rparr> sample_ledger) 5
     = 255
   \<and> user_used_quota (post_consume sample_common sample_deps sample_context sample_request
       sample_billing \<lparr>PromptTokens = 7, CompletionTokens = 5, TotalTokens = 12\<rparr> sample_ledger) 7
     = 255
   \<and> map log_content (consume_logs (post_consume sample_common sample_deps sample_context
       sample_request sample_billing
       \<lparr>PromptTokens = 7, CompletionTokens = 5, TotalTokens = 12\<rparr> sample_ledger))
     = [logContent_text sample_deps 15 1]
   \<and> batch_channel_used_quota (post_consume (sample_common\<lparr>BatchUpdateEnabled := True\<rparr>)
       sample_deps sample_context sample_request sample_billing
       \<lparr>PromptTokens = 7, CompletionTokens = 5, TotalTokens = 12\<rparr> sample_ledger)
     = [(5, 255)]
   \<and> consume_logs (post_consume sample_common sample_deps sample_context sample_request
       sample_billing zero_usage sample_ledger) = []"
proof -
  let ?u = "\<lparr>PromptTokens = 7, CompletionTokens = 5, TotalTokens = 12\<rparr>"
  let ?batch = "sample_common\<lparr>BatchUpdateEnabled := True\<rparr>"
  have q: "settled_quota sample_common sample_request sample_billing ?u = 255"
    by (simp add: settled_quota_def settle_quota_def sample_common_def sample_request_def
        sample_billing_def HasPrefix_def)
  have q': "settled_quota ?batch sample_request sample_billing ?u = 255"
    by (simp add: settled_quota_def settle_quota_def sample_common_def sample_request_def
        sample_billing_def HasPrefix_def)
  have z: "settled_quota sample_common sample_request sample_billing zero_usage = 0"
    by (simp add: settled_quota_def settle_quota_def zero_usage_def)
  have direct: "\<not> BatchUpdateEnabled sample_common" "BatchUpdateEnabled ?batch"
    by (simp_all add: sample_common_def)
  have reach: "out_of_reach sample_ledger = {}" "consume_logs sample_ledger = []"
    "batch_channel_used_quota sample_ledger = []" "token_remain_quota sample_ledger 3 = 20000"
    "channel_used_quota sample_ledger 5 = 0" "user_used_quota sample_ledger 7 = 0"
    by (simp_all add: sample_ledger_def)
  have ids: "ctx_id sample_context = 7" "ctx_channel_id sample_context = 5"
    "ctx_token_id sample_context = 3"
    by (simp_all add: sample_context_def)
  have bl: "modelRatio sample_billing = 15" "groupRatio sample_billing = 1"
    "preConsumedQuota sample_billing = 0"
    by (simp_all add: sample_billing_def)
  show ?thesis
    using settlement_effects [where cm = sample_common and deps = sample_deps
        and c = sample_context and textRequest = sample_request and b = sample_billing
        and u = ?u and l = sample_ledger]
      settlement_effects [where cm = ?batch and deps = sample_deps
        and c = sample_context and textRequest = sample_request and b = sample_billing
        and u = ?u and l = sample_ledger]
      settlement_effects [where cm = sample_common and deps = sample_deps
        and c = sample_context and textRequest = sample_request and b = sample_billing
        and u = zero_usage and l = sample_ledger]
    unfolding Let_def q q' z
    by (simp add: direct reach ids bl)
qed

subsection \<open>The leader lease\<close>










subsection \<open>Self-origin suppression\<close>

text \<open>
  Claim C8, as stated, fails for a node whose instance id is the empty string: the
  payload \<open>|reload\<close> has the empty origin, which equals the node's id, and the message
  triggers an options reload, because line 56 looks for an origin only when the
  separator is found at a position greater than 0.
\<close>

theorem empty_instance_id_is_not_suppressed:
  "spec_origin_instance_id ''|reload'' = Some []
   \<and> handle_message [] ''options_sync'' ''channels_sync''
       \<lparr>msg_Channel = ''options_sync'', msg_Payload = ''|reload''\<rparr> = [ReloadOptions]"
  by (simp add: spec_origin_instance_id_def handle_message_def HasPrefix_def)

lemma self_origin_skipped:
  assumes "InstanceID \<noteq> []"
    and "spec_origin_instance_id (msg_Payload msg) = Some InstanceID"
  shows "handle_message InstanceID optionsTopic channelsTopic msg = []"
proof -
  let ?p = "msg_Payload msg"
  from assms(2) have bar: "CHR ''|'' \<in> set ?p"
    and pre: "takeWhile (\<lambda>x. x \<noteq> CHR ''|'') ?p = InstanceID"
    by (simp_all add: spec_origin_instance_id_def split: if_splits)
  have sep: "Index ?p ''|'' = int (length InstanceID)"
    using bar pre by (simp add: Index_char)
  with assms(1) have pos: "0 < Index ?p ''|''" by simp
  have "take (length (takeWhile (\<lambda>x. x \<noteq> CHR ''|'') ?p)) ?p
          = takeWhile (\<lambda>x. x \<noteq> CHR ''|'') ?p"
    by (rule takeWhile_eq_take [symmetric])
  then have "take (length InstanceID) ?p = InstanceID"
    unfolding pre .
  then have "take (nat (Index ?p ''|'')) ?p = InstanceID"
    by (simp add: sep)
  with pos show ?thesis by (simp add: handle_message_def)
qed

text \<open>
  Claim C8, amended. For every pub/sub message received on the options or the channels
  topic, if the message's origin instance id is not empty and equals the receiving
  node's own instance id, the message triggers neither an options reload nor a channels
  reload: it triggers nothing, and the reloads of a whole run of the subscriber are
  those of the run without its self-origin messages.
\<close>

theorem self_origin_never_reloads:
  assumes "InstanceID \<noteq> []"
  shows "(spec_origin_instance_id (msg_Payload msg) = Some InstanceID \<longrightarrow>
            handle_message InstanceID optionsTopic channelsTopic msg = [])
         \<and> subscriber_loop InstanceID optionsTopic channelsTopic rs
             = subscriber_loop InstanceID optionsTopic channelsTopic
                 (filter (\<lambda>r. \<not> self_origin InstanceID r) rs)"
proof
  show "spec_origin_instance_id (msg_Payload msg) = Some InstanceID \<longrightarrow>
            handle_message InstanceID optionsTopic channelsTopic msg = []"
    using self_origin_skipped [OF assms] by blast
next
  show "subscriber_loop InstanceID optionsTopic channelsTopic rs
             = subscriber_loop InstanceID optionsTopic channelsTopic
                 (filter (\<lambda>r. \<not> self_origin InstanceID r) rs)"
  proof (induction rs)
    case Nil
    show ?case by simp
  next
    case (Cons r rs)
    show ?case
    proof (cases r)
      case (Message m)
      with Cons self_origin_skipped [OF assms, of m] show ?thesis
        by (simp add: self_origin_def)
    next
      case (Receive_error canceled)
      with Cons show ?thesis by (simp add: self_origin_def)
    qed
  qed
qed

theorem self_origin_never_reloads_witness:
  "handle_message ''node-a'' ''options_sync'' ''channels_sync''
     \<lparr>msg_Channel = ''channels_sync'', msg_Payload = ''node-a|reload''\<rparr> = []
   \<and> subscriber_loop ''node-a'' ''options_sync'' ''channels_sync''
       [Message \<lparr>msg_Channel = ''channels_sync'', msg_Payload = ''node-a|reload''\<rparr>,
        Message \<lparr>msg_Channel = ''channels_sync'', msg_Payload = ''node-b|reload''\<rparr>,
        Message \<lparr>msg_Channel = ''options_sync'', msg_Payload = ''node-a|reload''\<rparr>]
     = [ReloadChannels]"
proof -
  have ne: "''node-a'' \<noteq> []" by simp
  let ?own = "\<lparr>msg_Channel = ''channels_sync'', msg_Payload = ''node-a|reload''\<rparr>"
  let ?other = "\<lparr>msg_Channel = ''channels_sync'', msg_Payload = ''node-b|reload''\<rparr>"
  let ?own' = "\<lparr>msg_Channel = ''options_sync'', msg_Payload = ''node-a|reload''\<rparr>"
  have o: "spec_origin_instance_id (msg_Payload ?own) = Some ''node-a''"
    by (simp add: spec_origin_instance_id_def)
  have other: "handle_message ''node-a'' ''options_sync'' ''channels_sync'' ?other = [ReloadChannels]"
    by (simp add: handle_message_def HasPrefix_def)
  have o': "spec_origin_instance_id (msg_Payload ?own') = Some ''node-a''"
    by (simp add: spec_origin_instance_id_def)
  from self_origin_never_reloads [OF ne, of ?own "''options_sync''" "''channels_sync''"
      "[Message ?own, Message ?other, Message ?own']"]
    self_origin_never_reloads [OF ne, of ?own' "''options_sync''" "''channels_sync''" "[]"]
    o o' other
  show ?thesis
    by (simp add: self_origin_def spec_origin_instance_id_def)
qed

subsection \<open>The racing dispatcher: transitions and invariants\<close>

lemma do_returns_fields:
  "d_running (do_returns a res s) = removeAll a (d_running s)"
  "d_returned (do_returns a res s) = d_returned s"
  "d_winner (do_returns a res s) = d_winner s"
  "d_closed (do_returns a res s) = d_closed s"
  "d_timer_taken (do_returns a res s) = d_timer_taken s"
  "d_resps (do_returns a res s) = d_resps s"
  "d_asyncNum (do_returns a res s) = d_asyncNum s"
  "d_req (do_returns a res s) = d_req s"
  "d_launched (do_returns a res s) = d_launched s"
  by (simp_all add: do_returns_def Let_def split: sum.splits attempt.splits)

lemma do_returns_sending:
  "d_sending (do_returns a res s) =
     (case res of
        Inl err \<Rightarrow> d_sending s
      | Inr resp \<Rightarrow> if d_closed s then d_sending s else d_sending s @ [(a, resp)])"
  by (simp add: do_returns_def Let_def split: sum.splits attempt.splits)

lemma do_returns_canceled:
  "d_canceled (do_returns a res s) =
     (case (a, res) of (Initial i, Inl err) \<Rightarrow> d_canceled s @ [i] | other \<Rightarrow> d_canceled s)"
  by (simp add: do_returns_def Let_def split: sum.splits attempt.splits)

lemma do_returns_cancelFuncs:
  "d_cancelFuncs (do_returns a res s) =
     (case (a, res) of
        (Initial i, Inr resp) \<Rightarrow>
          if resp_StatusCode resp = 200 then removeAll i (d_cancelFuncs s) else d_cancelFuncs s
      | other \<Rightarrow> d_cancelFuncs s)"
  by (simp add: do_returns_def Let_def split: sum.splits attempt.splits)

lemma receive_fields:
  "d_running (receive m s) = d_running s"
  "d_sending (receive m s) = tl (d_sending s)"
  "d_closed (receive m s) = d_closed s"
  "d_timer_taken (receive m s) = d_timer_taken s"
  "d_cancelFuncs (receive m s) = d_cancelFuncs s"
  "d_asyncNum (receive m s) = d_asyncNum s"
  "d_req (receive m s) = d_req s"
  "d_launched (receive m s) = d_launched s"
  by (simp_all add: receive_def Let_def split: prod.splits)

lemma receive_200:
  assumes "resp_StatusCode resp = 200"
  shows "d_returned (receive (a, resp) s) = Some (Some resp, None)"
    and "d_winner (receive (a, resp) s) = Some a"
    and "d_canceled (receive (a, resp) s) = d_canceled s @ d_cancelFuncs s"
    and "d_resps (receive (a, resp) s) = d_resps s"
    and "d_closed_bodies (receive (a, resp) s) = d_resps s"
  using assms by (simp_all add: receive_def Let_def)

lemma receive_other:
  assumes "resp_StatusCode resp \<noteq> 200"
  shows "d_returned (receive (a, resp) s) = d_returned s"
    and "d_winner (receive (a, resp) s) = d_winner s"
    and "d_canceled (receive (a, resp) s) = d_canceled s"
    and "d_resps (receive (a, resp) s) = d_resps s @ [resp]"
  using assms by (simp_all add: receive_def Let_def)

lemma timer_tick_fields:
  "d_running (timer_tick s) = (if 1 < d_asyncNum s then d_running s @ [Escalation] else d_running s)"
  "d_launched (timer_tick s) =
     (if 1 < d_asyncNum s then d_launched s @ [(Escalation, d_req s)] else d_launched s)"
  "d_sending (timer_tick s) = d_sending s"
  "d_timer_taken (timer_tick s) = True"
  "d_closed (timer_tick s) = d_closed s"
  "d_returned (timer_tick s) = d_returned s"
  "d_winner (timer_tick s) = d_winner s"
  "d_canceled (timer_tick s) = d_canceled s"
  "d_cancelFuncs (timer_tick s) = d_cancelFuncs s"
  "d_resps (timer_tick s) = d_resps s"
  "d_asyncNum (timer_tick s) = d_asyncNum s"
  "d_req (timer_tick s) = d_req s"
  by (simp_all add: timer_tick_def Let_def)

lemma all_done_fields:
  "d_running (all_done s) = d_running s"
  "d_sending (all_done s) = d_sending s"
  "d_timer_taken (all_done s) = d_timer_taken s"
  "d_closed (all_done s) = d_closed s"
  "d_winner (all_done s) = d_winner s"
  "d_canceled (all_done s) = d_canceled s @ d_cancelFuncs s"
  "d_cancelFuncs (all_done s) = d_cancelFuncs s"
  "d_resps (all_done s) = tl (d_resps s)"
  "d_returned (all_done s) =
     Some (case d_resps s of [] \<Rightarrow> None | resp # rest \<Rightarrow> Some resp, d_lastErr s)"
  "d_asyncNum (all_done s) = d_asyncNum s"
  "d_req (all_done s) = d_req s"
  "d_launched (all_done s) = d_launched s"
  by (simp_all add: all_done_def Let_def split: list.splits)

text \<open>The seven ways an event can happen.\<close>

lemma step_cases [consumes 1, case_names Do_error Do_response Receive_200 Receive_other
    Timer Wait_returns Done]:
  assumes "step e s = Some s1"
  obtains
    (Do_error) a err where "e = Do_returns a (Inl err)" "a \<in> set (d_running s)"
      "s1 = do_returns a (Inl err) s"
  | (Do_response) a resp where "e = Do_returns a (Inr resp)" "a \<in> set (d_running s)"
      "s1 = do_returns a (Inr resp) s"
  | (Receive_200) a resp ms where "e = Receive" "d_sending s = (a, resp) # ms"
      "d_returned s = None" "resp_StatusCode resp = 200" "s1 = receive (a, resp) s"
  | (Receive_other) a resp ms where "e = Receive" "d_sending s = (a, resp) # ms"
      "d_returned s = None" "resp_StatusCode resp \<noteq> 200" "s1 = receive (a, resp) s"
  | (Timer) "e = Timer" "d_returned s = None" "\<not> d_timer_taken s" "s1 = timer_tick s"
  | (Wait_returns) "e = Wait_returns" "\<not> d_closed s" "d_running s = []" "d_sending s = []"
      "s1 = s\<lparr>d_closed := True\<rparr>"
  | (Done) "e = Done" "d_returned s = None" "d_closed s" "s1 = all_done s"
proof (cases e)
  case (Do_returns a res)
  with assms have "a \<in> set (d_running s)" and s1: "s1 = do_returns a res s"
    by (simp_all add: step_def split: if_splits)
  with Do_returns show ?thesis
    by (cases res) (auto intro: Do_error Do_response)
next
  case Receive
  with assms obtain m ms where q: "d_sending s = m # ms" and r: "d_returned s = None"
    and s1: "s1 = receive m s"
    by (auto simp: step_def split: list.splits if_splits)
  obtain a resp where m: "m = (a, resp)" by (cases m)
  show ?thesis
  proof (cases "resp_StatusCode resp = 200")
    case True
    with Receive q r s1 m show ?thesis by (auto intro: Receive_200)
  next
    case False
    with Receive q r s1 m show ?thesis by (auto intro: Receive_other)
  qed
next
  case Timer
  with assms show ?thesis
    by (auto simp: step_def split: if_splits intro: that(5))
next
  case Wait_returns
  with assms show ?thesis
    by (auto simp: step_def split: if_splits intro: that(6))
next
  case Done
  with assms show ?thesis
    by (auto simp: step_def split: if_splits intro: that(7))
qed

lemma run_append:
  "run (es @ fs) s = (case run es s of None \<Rightarrow> None | Some s1 \<Rightarrow> run fs s1)"
  by (induction es arbitrary: s) (auto split: option.splits)

lemma run_snoc:
  "run (es @ [e]) s = Some s2 \<longleftrightarrow> (\<exists>s1. run es s = Some s1 \<and> step e s1 = Some s2)"
  by (auto simp: run_append split: option.splits)

lemma completed_200_append:
  "completed_200 (es @ fs) = completed_200 es @ completed_200 fs"
  by (induction es rule: completed_200.induct) auto

lemma set_tl_subset: "x \<in> set (tl xs) \<Longrightarrow> x \<in> set xs"
  by (cases xs) auto

lemma running_not_sending:
  assumes "inv_queue s" and "a \<in> set (d_running s)"
  shows "(a, r) \<notin> set (d_sending s)"
  using assms by (force simp: inv_queue_def waiting_def)

lemma inv_queue_step:
  assumes "inv_queue s" and "step e s = Some s1"
  shows "inv_queue s1"
  using assms(2)
proof (cases rule: step_cases)
  case (Do_error a err)
  with assms(1) show ?thesis
    by (auto simp: inv_queue_def waiting_def do_returns_fields do_returns_sending
        distinct_removeAll)
next
  case (Do_response a resp)
  with assms(1) show ?thesis
    by (auto simp: inv_queue_def waiting_def do_returns_fields do_returns_sending
        distinct_removeAll)
next
  case (Receive_200 a resp ms)
  with assms(1) show ?thesis
    by (auto simp: inv_queue_def waiting_def receive_fields receive_200)
next
  case (Receive_other a resp ms)
  with assms(1) show ?thesis
    by (auto simp: inv_queue_def waiting_def receive_fields receive_other)
next
  case Timer
  with assms(1) show ?thesis
    by (auto simp: inv_queue_def waiting_def timer_tick_fields)
next
  case Wait_returns
  with assms(1) show ?thesis
    by (auto simp: inv_queue_def waiting_def)
next
  case Done
  with assms(1) show ?thesis
    by (auto simp: inv_queue_def waiting_def all_done_fields dest: set_tl_subset)
qed

lemma inv_cancel_step:
  assumes "inv_cancel s" and "inv_queue s" and "step e s = Some s1"
  shows "inv_cancel s1"
  using assms(3)
proof (cases rule: step_cases)
  case (Do_error a err)
  have "\<And>r. (a, r) \<notin> set (d_sending s)"
    using assms(2) Do_error(2) by (rule running_not_sending)
  with Do_error assms(1,2) show ?thesis
    by (cases a)
      (auto simp: inv_cancel_def inv_queue_def waiting_def do_returns_fields
        do_returns_sending do_returns_canceled do_returns_cancelFuncs)
next
  case (Do_response a resp)
  have "\<And>r. (a, r) \<notin> set (d_sending s)"
    using assms(2) Do_response(2) by (rule running_not_sending)
  with Do_response assms(1,2) show ?thesis
    by (cases a)
      (auto simp: inv_cancel_def inv_queue_def waiting_def do_returns_fields
        do_returns_sending do_returns_canceled do_returns_cancelFuncs)
next
  case (Receive_200 a resp ms)
  with assms(1,2) show ?thesis
    by (auto simp: inv_cancel_def inv_queue_def waiting_def receive_fields receive_200)
next
  case (Receive_other a resp ms)
  with assms(1,2) show ?thesis
    by (auto simp: inv_cancel_def inv_queue_def waiting_def receive_fields receive_other)
next
  case Timer
  with assms(1,2) show ?thesis
    by (auto simp: inv_cancel_def inv_queue_def waiting_def timer_tick_fields)
next
  case Wait_returns
  with assms(1,2) show ?thesis
    by (auto simp: inv_cancel_def inv_queue_def waiting_def)
next
  case Done
  with assms(1,2) show ?thesis
    by (auto simp: inv_cancel_def inv_queue_def waiting_def all_done_fields)
qed

lemma inv_first_step:
  assumes "inv_first evs s" and "inv_queue s" and "step e s = Some s1"
  shows "inv_first (evs @ [e]) s1"
  using assms(3)
proof (cases rule: step_cases)
  case (Do_error a err)
  with assms(1,2) show ?thesis
    by (auto simp: inv_first_def completed_200_append do_returns_fields do_returns_sending)
next
  case (Do_response a resp)
  with assms(1,2) show ?thesis
    by (auto simp: inv_first_def inv_queue_def completed_200_append do_returns_fields
        do_returns_sending is_200_def)
next
  case (Receive_200 a resp ms)
  from assms(2) Receive_200(2) have "\<not> d_closed s"
    by (auto simp: inv_queue_def)
  with assms(1) Receive_200(2,3,4)
  have "completed_200 evs = (a, resp) # filter is_200 ms"
    by (simp add: inv_first_def is_200_def)
  with Receive_200 show ?thesis
    by (simp add: inv_first_def completed_200_append receive_fields receive_200)
next
  case (Receive_other a resp ms)
  with assms(1) show ?thesis
    by (auto simp: inv_first_def completed_200_append receive_fields receive_other is_200_def)
next
  case Timer
  with assms(1) show ?thesis
    by (auto simp: inv_first_def completed_200_append timer_tick_fields)
next
  case Wait_returns
  with assms(1) show ?thesis
    by (auto simp: inv_first_def completed_200_append)
next
  case Done
  with assms(1,2) show ?thesis
    by (auto simp: inv_first_def inv_queue_def completed_200_append all_done_fields
        split: list.splits)
qed

lemma inv_timer_step:
  assumes "inv_timer N q evs s" and "step e s = Some s1"
  shows "inv_timer N q (evs @ [e]) s1"
  using assms(2)
proof (cases rule: step_cases)
  case (Do_error a err)
  with assms(1) show ?thesis
    by (auto simp: inv_timer_def escalations_def do_returns_fields)
next
  case (Do_response a resp)
  with assms(1) show ?thesis
    by (auto simp: inv_timer_def escalations_def do_returns_fields)
next
  case (Receive_200 a resp ms)
  with assms(1) show ?thesis
    by (auto simp: inv_timer_def escalations_def receive_fields)
next
  case (Receive_other a resp ms)
  with assms(1) show ?thesis
    by (auto simp: inv_timer_def escalations_def receive_fields)
next
  case Timer
  from assms(1) Timer(3) have "Timer \<notin> set evs"
    by (simp add: inv_timer_def)
  then have "filter (\<lambda>e. e = Timer) evs = []"
    by (auto simp: filter_empty_conv)
  with Timer assms(1) show ?thesis
    by (auto simp: inv_timer_def escalations_def timer_tick_fields)
next
  case Wait_returns
  with assms(1) show ?thesis
    by (auto simp: inv_timer_def escalations_def)
next
  case Done
  with assms(1) show ?thesis
    by (auto simp: inv_timer_def escalations_def all_done_fields)
qed

text \<open>The invariants hold in every state a schedule leads to.\<close>

lemma invariants_run:
  assumes "inv_queue s0" and "inv_cancel s0" and "inv_first [] s0" and "inv_timer N q [] s0"
    and "run evs s0 = Some s"
  shows "inv_queue s \<and> inv_cancel s \<and> inv_first evs s \<and> inv_timer N q evs s"
  using assms(5)
proof (induction evs arbitrary: s rule: rev_induct)
  case Nil
  with assms(1-4) show ?case by simp
next
  case (snoc e evs)
  from snoc.prems obtain s1 where r: "run evs s0 = Some s1" and st: "step e s1 = Some s"
    by (auto simp: run_snoc)
  from snoc.IH [OF r] have i: "inv_queue s1" "inv_cancel s1" "inv_first evs s1"
    "inv_timer N q evs s1"
    by simp_all
  from i(1) st have "inv_queue s" by (rule inv_queue_step)
  moreover from i(2,1) st have "inv_cancel s" by (rule inv_cancel_step)
  moreover from i(3,1) st have "inv_first (evs @ [e]) s" by (rule inv_first_step)
  moreover from i(4) st have "inv_timer N q (evs @ [e]) s" by (rule inv_timer_step)
  ultimately show ?case by blast
qed

text \<open>The invariants hold when the setup has started the attempts.\<close>

lemma setup_fields:
  assumes "asyncHTTPDo_setup req readAll asyncNum = Started s0"
  shows "d_asyncNum s0 = asyncNum" and "0 \<le> asyncNum"
    and "d_sending s0 = []" and "d_resps s0 = []" and "d_canceled s0 = []"
    and "d_winner s0 = None" and "\<not> d_timer_taken s0" and "\<not> d_closed s0"
    and "d_launched s0 = zip (d_running s0) (d_reqs s0)"
    and "d_running s0 = map Initial [0..<nat asyncNum]"
    and "d_returned s0 = None"
    and "d_cancelFuncs s0 = [0..<nat asyncNum]"
    and "asyncNum \<noteq> 1 \<Longrightarrow> d_req s0 = req\<lparr>req_Body := []\<rparr>"
  using assms
  by (auto simp: asyncHTTPDo_setup_def Let_def split: if_splits sum.splits)

lemma setup_invariants:
  assumes "asyncHTTPDo_setup req readAll asyncNum = Started s0"
  shows "inv_queue s0" and "inv_cancel s0" and "inv_first [] s0"
    and "inv_timer asyncNum (d_req s0) [] s0"
proof -
  note f = setup_fields [OF assms]
  have inj: "distinct (map Initial [0..<nat asyncNum])"
    by (simp add: distinct_map inj_on_def)
  show "inv_queue s0"
    using f inj by (auto simp: inv_queue_def waiting_def)
  show "inv_cancel s0"
    using f by (auto simp: inv_cancel_def waiting_def)
  show "inv_first [] s0"
    using f by (auto simp: inv_first_def)
  have "fst p \<noteq> Escalation" if "p \<in> set (d_launched s0)" for p
  proof -
    obtain a b where p: "p = (a, b)" by (cases p)
    with that f(9) have "(a, b) \<in> set (zip (d_running s0) (d_reqs s0))" by simp
    then have "a \<in> set (d_running s0)" by (rule set_zip_leftD)
    with p have "fst p \<in> set (d_running s0)" by simp
    with f(10) show ?thesis by auto
  qed
  then have "escalations s0 = []"
    by (auto simp: escalations_def filter_empty_conv)
  with f show "inv_timer asyncNum (d_req s0) [] s0"
    by (simp add: inv_timer_def)
qed

lemma cancelFuncs_step:
  assumes "step e s = Some s1"
  shows "set (d_cancelFuncs s1) \<subseteq> set (d_cancelFuncs s)"
  using assms
  by (cases rule: step_cases)
    (auto simp: do_returns_cancelFuncs receive_fields timer_tick_fields all_done_fields
      split: attempt.splits if_splits)

lemma cancelFuncs_run:
  assumes "run evs s0 = Some s"
  shows "set (d_cancelFuncs s) \<subseteq> set (d_cancelFuncs s0)"
  using assms
proof (induction evs arbitrary: s0)
  case Nil
  then show ?case by simp
next
  case (Cons e evs)
  then obtain s1 where st: "step e s0 = Some s1" and r: "run evs s1 = Some s"
    by (auto split: option.splits)
  from Cons.IH [OF r] cancelFuncs_step [OF st] show ?case by blast
qed

text \<open>
  Progress: while the function has not returned, a waiting response with status 200 is
  returned after the responses queued before it have been received.
\<close>

lemma receive_until_200:
  assumes "d_returned s = None" and "filter is_200 (d_sending s) = (a, resp) # rest"
  shows "\<exists>k s1. run (replicate k Receive) s = Some s1
           \<and> d_returned s1 = Some (Some resp, None) \<and> d_winner s1 = Some a"
  using assms
proof (induction "length (d_sending s)" arbitrary: s)
  case 0
  then show ?case by simp
next
  case (Suc n)
  then obtain m ms where q: "d_sending s = m # ms"
    by (cases "d_sending s") auto
  obtain b r where m: "m = (b, r)" by (cases m)
  show ?case
  proof (cases "resp_StatusCode r = 200")
    case True
    with Suc.prems(2) q m have "b = a" "r = resp"
      by (simp_all add: is_200_def)
    with True q m Suc.prems(1)
    have "run (replicate 1 Receive) s = Some (receive (a, resp) s)"
      by (simp add: step_def)
    moreover from True \<open>r = resp\<close>
    have "d_returned (receive (a, resp) s) = Some (Some resp, None)"
      "d_winner (receive (a, resp) s) = Some a"
      by (simp_all add: receive_200)
    ultimately show ?thesis by blast
  next
    case False
    let ?s = "receive (b, r) s"
    from False q m Suc.prems(1) have st: "step Receive s = Some ?s"
      by (simp add: step_def)
    have len: "n = length (d_sending ?s)"
      using Suc.hyps(2) q by (simp add: receive_fields)
    have ret: "d_returned ?s = None"
      using False Suc.prems(1) by (simp add: receive_other)
    have fil: "filter is_200 (d_sending ?s) = (a, resp) # rest"
      using False Suc.prems(2) q m by (simp add: receive_fields is_200_def)
    from Suc.hyps(1) [OF len ret fil] obtain k s1
      where "run (replicate k Receive) ?s = Some s1"
        and "d_returned s1 = Some (Some resp, None)" and "d_winner s1 = Some a"
      by blast
    with st have "run (replicate (Suc k) Receive) s = Some s1"
      by simp
    with \<open>d_returned s1 = Some (Some resp, None)\<close> \<open>d_winner s1 = Some a\<close>
    show ?thesis by blast
  qed
qed

lemma asyncHTTPDo_run:
  assumes "asyncHTTPDo req readAll asyncNum evs = Started (Some s)"
  obtains s0 where "asyncHTTPDo_setup req readAll asyncNum = Started s0" and "run evs s0 = Some s"
  using assms by (auto simp: asyncHTTPDo_def split: begun.splits)

subsection \<open>The racing dispatcher: the first 200 wins\<close>

text \<open>
  Claim C3. Under every schedule: when \<open>asyncHTTPDo\<close> has returned a response with
  status 200, it is the response of the first attempt in which \<open>Do\<close> returned a status
  200, with a nil error; that attempt's entry is out of the cancel table and its cancel
  function has not been invoked, while the cancel function of every entry left in the
  table has been invoked. An initial attempt that completes with status 200 removes
  its own entry at once. And while \<open>asyncHTTPDo\<close> has not returned and the response
  channel is open, the first attempt that completed with status 200 is returned once
  the main loop has received what is queued before it.
\<close>

theorem first_200_wins:
  assumes "asyncHTTPDo req readAll asyncNum evs = Started (Some s)"
  shows "(\<forall>resp err. d_returned s = Some (Some resp, err) \<and> resp_StatusCode resp = 200 \<longrightarrow>
            err = None
            \<and> (\<exists>a rest. d_winner s = Some a \<and> completed_200 evs = (a, resp) # rest
                  \<and> a \<notin> set (d_running s)
                  \<and> (\<forall>i. a = Initial i \<longrightarrow>
                        i \<notin> set (d_cancelFuncs s) \<and> i \<notin> set (d_canceled s)))
            \<and> set (d_cancelFuncs s) \<subseteq> set (d_canceled s))
         \<and> (\<forall>i resp. resp_StatusCode resp = 200 \<longrightarrow>
               i \<notin> set (d_cancelFuncs (do_returns (Initial i) (Inr resp) s)))
         \<and> (\<forall>a resp rest. d_returned s = None \<and> \<not> d_closed s
               \<and> completed_200 evs = (a, resp) # rest \<longrightarrow>
               (\<exists>k s1. asyncHTTPDo req readAll asyncNum (evs @ replicate k Receive) = Started (Some s1)
                  \<and> d_returned s1 = Some (Some resp, None) \<and> d_winner s1 = Some a))"
proof -
  from assms obtain s0 where s0: "asyncHTTPDo_setup req readAll asyncNum = Started s0"
    and r: "run evs s0 = Some s"
    by (rule asyncHTTPDo_run)
  note i0 = setup_invariants [OF s0]
  from invariants_run [OF i0 r]
  have q: "inv_queue s" and c: "inv_cancel s" and f: "inv_first evs s"
    by simp_all
  have safe: "err = None
            \<and> (\<exists>a rest. d_winner s = Some a \<and> completed_200 evs = (a, resp) # rest
                  \<and> a \<notin> set (d_running s)
                  \<and> (\<forall>i. a = Initial i \<longrightarrow>
                        i \<notin> set (d_cancelFuncs s) \<and> i \<notin> set (d_canceled s)))
            \<and> set (d_cancelFuncs s) \<subseteq> set (d_canceled s)"
    if ret: "d_returned s = Some (Some resp, err)" and ok: "resp_StatusCode resp = 200"
    for resp err
  proof -
    from f ret ok obtain a rest where e: "err = None" and w: "d_winner s = Some a"
      and first: "completed_200 evs = (a, resp) # rest"
      unfolding inv_first_def by blast
    from c w have "a \<notin> set (d_running s)"
      and "set (d_cancelFuncs s) \<subseteq> set (d_canceled s)"
      and "\<forall>i. a = Initial i \<longrightarrow> i \<notin> set (d_canceled s) \<and> i \<notin> set (d_cancelFuncs s)"
      unfolding inv_cancel_def by blast+
    with e w first show ?thesis by blast
  qed
  have live: "\<exists>k s1. asyncHTTPDo req readAll asyncNum (evs @ replicate k Receive) = Started (Some s1)
                  \<and> d_returned s1 = Some (Some resp, None) \<and> d_winner s1 = Some a"
    if "d_returned s = None" and "\<not> d_closed s" and "completed_200 evs = (a, resp) # rest"
    for a resp rest
  proof -
    from f that have "filter is_200 (d_sending s) = (a, resp) # rest"
      by (simp add: inv_first_def)
    from receive_until_200 [OF that(1) this] obtain k s1
      where "run (replicate k Receive) s = Some s1"
        and g: "d_returned s1 = Some (Some resp, None)" "d_winner s1 = Some a"
      by blast
    with r have "run (evs @ replicate k Receive) s0 = Some s1"
      by (simp add: run_append)
    with s0 have "asyncHTTPDo req readAll asyncNum (evs @ replicate k Receive) = Started (Some s1)"
      by (simp add: asyncHTTPDo_def)
    with g show ?thesis by blast
  qed
  have gone: "i \<notin> set (d_cancelFuncs (do_returns (Initial i) (Inr resp) s))"
    if "resp_StatusCode resp = 200" for i resp
    using that by (simp add: do_returns_def Let_def)
  from safe gone live show ?thesis by blast
qed

text \<open>
  A race of three: attempt 1 answers 500 and is queued as a fallback, attempt 0 answers
  200 and wins, attempt 2 is still in flight and is canceled.
\<close>

lemma race_of_three:
  "\<exists>s. asyncHTTPDo sample_http_request (Inr ''hello'') 3
          [Do_returns (Initial 1) (Inr bad_response), Receive,
           Do_returns (Initial 0) (Inr ok_response), Receive] = Started (Some s)
       \<and> d_returned s = Some (Some ok_response, None)
       \<and> d_running s = [Initial 2]
       \<and> d_cancelFuncs s = [1, 2]
       \<and> d_canceled s = [1, 2]
       \<and> d_closed_bodies s = [bad_response]"
  by (simp add: asyncHTTPDo_def asyncHTTPDo_setup_def Let_def step_def do_returns_def
      receive_def sample_http_request_def ok_response_def bad_response_def
      upt_conv_Cons)

lemma two_waiting:
  "\<exists>s. asyncHTTPDo sample_http_request (Inr ''hello'') 3
          [Do_returns (Initial 1) (Inr bad_response),
           Do_returns (Initial 0) (Inr ok_response)] = Started (Some s)
       \<and> d_returned s = None \<and> \<not> d_closed s"
  by (simp add: asyncHTTPDo_def asyncHTTPDo_setup_def Let_def step_def do_returns_def
      sample_http_request_def ok_response_def bad_response_def upt_conv_Cons)

theorem first_200_wins_witness:
  "(\<exists>s. asyncHTTPDo sample_http_request (Inr ''hello'') 3
          [Do_returns (Initial 1) (Inr bad_response), Receive,
           Do_returns (Initial 0) (Inr ok_response), Receive] = Started (Some s)
       \<and> d_returned s = Some (Some ok_response, None)
       \<and> d_winner s = Some (Initial 0)
       \<and> 0 \<notin> set (d_canceled s)
       \<and> d_cancelFuncs s = [1, 2]
       \<and> d_canceled s = [1, 2])
   \<and> (\<exists>k s1. asyncHTTPDo sample_http_request (Inr ''hello'') 3
          ([Do_returns (Initial 1) (Inr bad_response),
            Do_returns (Initial 0) (Inr ok_response)] @ replicate k Receive) = Started (Some s1)
       \<and> d_returned s1 = Some (Some ok_response, None)
       \<and> d_winner s1 = Some (Initial 0))"
proof -
  let ?evs = "[Do_returns (Initial 1) (Inr bad_response), Receive,
           Do_returns (Initial 0) (Inr ok_response), Receive]"
  let ?pre = "[Do_returns (Initial 1) (Inr bad_response),
           Do_returns (Initial 0) (Inr ok_response)]"
  have ok: "resp_StatusCode ok_response = 200" "resp_StatusCode bad_response \<noteq> 200"
    by (simp_all add: ok_response_def bad_response_def)
  obtain s where run: "asyncHTTPDo sample_http_request (Inr ''hello'') 3 ?evs = Started (Some s)"
    and ret: "d_returned s = Some (Some ok_response, None)"
    and tab: "d_cancelFuncs s = [1, 2]" and inv: "d_canceled s = [1, 2]"
    using race_of_three by blast
  have c200: "completed_200 ?evs = [(Initial 0, ok_response)]"
    "completed_200 ?pre = [(Initial 0, ok_response)]"
    using ok by simp_all
  from first_200_wins [OF run] ret ok(1)
  obtain a rest where "d_winner s = Some a" and "completed_200 ?evs = (a, ok_response) # rest"
      and "\<forall>i. a = Initial i \<longrightarrow> i \<notin> set (d_cancelFuncs s) \<and> i \<notin> set (d_canceled s)"
    by blast
  with c200(1) have w: "d_winner s = Some (Initial 0)" and nc: "0 \<notin> set (d_canceled s)"
    by simp_all
  obtain s' where run': "asyncHTTPDo sample_http_request (Inr ''hello'') 3 ?pre = Started (Some s')"
    and open': "d_returned s' = None" "\<not> d_closed s'"
    using two_waiting by blast
  from first_200_wins [OF run'] open' c200(2)
  have "\<exists>k s1. asyncHTTPDo sample_http_request (Inr ''hello'') 3 (?pre @ replicate k Receive)
                  = Started (Some s1)
          \<and> d_returned s1 = Some (Some ok_response, None) \<and> d_winner s1 = Some (Initial 0)"
    by blast
  with run ret w nc tab inv show ?thesis by blast
qed

subsection \<open>The racing dispatcher: the escalation\<close>

text \<open>
  Claim C4. Under every schedule of \<open>asyncHTTPDo\<close>: the tick of the 5-second timer can
  be taken only while the function has not returned (so no status 200 has been
  received), and at most once. With \<open>N > 1\<close>, once it has been taken exactly one
  additional attempt has been started, on the original request object (whose body the
  setup has read to its end); before it none. With \<open>N \<le> 1\<close> the tick starts no attempt.
  \<open>N\<close> is never changed and the cancel table never gains an entry.
\<close>

theorem timer_escalates_once:
  assumes "asyncHTTPDo req readAll asyncNum evs = Started (Some s)"
  shows "d_asyncNum s = asyncNum
         \<and> length (filter (\<lambda>e. e = Timer) evs) \<le> 1
         \<and> (step Timer s \<noteq> None \<longleftrightarrow> d_returned s = None \<and> Timer \<notin> set evs)
         \<and> (1 < asyncNum \<and> Timer \<in> set evs \<longrightarrow>
               escalations s = [(Escalation, req\<lparr>req_Body := []\<rparr>)])
         \<and> (1 < asyncNum \<and> Timer \<notin> set evs \<longrightarrow> escalations s = [])
         \<and> (asyncNum \<le> 1 \<longrightarrow> escalations s = [])
         \<and> set (d_cancelFuncs s) \<subseteq> {0..<nat asyncNum}"
proof -
  from assms obtain s0 where s0: "asyncHTTPDo_setup req readAll asyncNum = Started s0"
    and r: "run evs s0 = Some s"
    by (rule asyncHTTPDo_run)
  note i0 = setup_invariants [OF s0]
  note f0 = setup_fields [OF s0]
  from invariants_run [OF i0 r]
  have t: "inv_timer asyncNum (d_req s0) evs s"
    by simp
  have drained: "d_req s0 = req\<lparr>req_Body := []\<rparr>" if "1 < asyncNum"
    using f0(13) that by simp
  have a: "d_asyncNum s = asyncNum" using t by (simp add: inv_timer_def)
  have b: "length (filter (\<lambda>e. e = Timer) evs) \<le> 1" using t by (simp add: inv_timer_def)
  have c: "step Timer s \<noteq> None \<longleftrightarrow> d_returned s = None \<and> Timer \<notin> set evs"
    using t by (simp add: inv_timer_def step_def)
  have d: "1 < asyncNum \<and> Timer \<in> set evs \<longrightarrow>
               escalations s = [(Escalation, req\<lparr>req_Body := []\<rparr>)]"
    using t drained by (simp add: inv_timer_def)
  have e: "1 < asyncNum \<and> Timer \<notin> set evs \<longrightarrow> escalations s = []"
    using t by (simp add: inv_timer_def)
  have f: "asyncNum \<le> 1 \<longrightarrow> escalations s = []"
    using t by (simp add: inv_timer_def)
  have g: "set (d_cancelFuncs s) \<subseteq> {0..<nat asyncNum}"
    using cancelFuncs_run [OF r] f0(12) by auto
  from a b c d e f g show ?thesis by (intro conjI)
qed

text \<open>
  Two attempts still pending when the timer ticks: a third goroutine is started on the
  original request, whose body has been read to its end. With one attempt the tick
  starts nothing.
\<close>

lemma tick_of_two:
  "\<exists>s. asyncHTTPDo sample_http_request (Inr ''hello'') 2 [Timer] = Started (Some s)
       \<and> d_running s = [Initial 0, Initial 1, Escalation]
       \<and> d_cancelFuncs s = [0, 1]"
  by (simp add: asyncHTTPDo_def asyncHTTPDo_setup_def Let_def step_def timer_tick_def
      sample_http_request_def upt_conv_Cons)

lemma tick_of_one:
  "\<exists>s. asyncHTTPDo sample_http_request (Inr ''hello'') 1 [Timer] = Started (Some s)
       \<and> d_running s = [Initial 0]
       \<and> d_launched s = [(Initial 0, sample_http_request)]"
  by (simp add: asyncHTTPDo_def asyncHTTPDo_setup_def Let_def step_def timer_tick_def
      sample_http_request_def upt_conv_Cons)

theorem timer_escalates_once_witness:
  "(\<exists>s. asyncHTTPDo sample_http_request (Inr ''hello'') 2 [Timer] = Started (Some s)
       \<and> escalations s
           = [(Escalation, \<lparr>req_ref = Original, req_Body = [], req_ContentLength = 5\<rparr>)]
       \<and> d_running s = [Initial 0, Initial 1, Escalation]
       \<and> d_asyncNum s = 2
       \<and> step Timer s = None)
   \<and> (\<exists>s. asyncHTTPDo sample_http_request (Inr ''hello'') 1 [Timer] = Started (Some s)
       \<and> escalations s = []
       \<and> d_running s = [Initial 0])"
proof -
  obtain s where run: "asyncHTTPDo sample_http_request (Inr ''hello'') 2 [Timer] = Started (Some s)"
    and g: "d_running s = [Initial 0, Initial 1, Escalation]"
    using tick_of_two by blast
  obtain s' where run': "asyncHTTPDo sample_http_request (Inr ''hello'') 1 [Timer] = Started (Some s')"
    and g': "d_running s' = [Initial 0]"
    using tick_of_one by blast
  from timer_escalates_once [OF run]
  have "escalations s = [(Escalation, \<lparr>req_ref = Original, req_Body = [], req_ContentLength = 5\<rparr>)]"
    and "d_asyncNum s = 2" and "step Timer s = None"
    by (simp_all add: sample_http_request_def)
  moreover from timer_escalates_once [OF run'] have "escalations s' = []"
    by simp
  ultimately show ?thesis using run run' g g' by blast
qed

end
